theory Spec2Isabelle
  imports Complex_Main
begin

section \<open>Numeric arrays and Python errors\<close>

text \<open>
  The calibration module works on numpy arrays of floats. Floats are modelled as
  exact reals; the values a float operation produces outside the reals
  (\<open>inf\<close>, \<open>-inf\<close>, \<open>nan\<close>) are kept apart in \<open>npfloat\<close>, so that a division by
  zero is a value of the model and not HOL's \<open>x / 0 = 0\<close>.
\<close>

datatype npfloat = Finite real | PosInf | NegInf | NaN

text \<open>numpy's true division of two finite floats (a warning, never an exception).\<close>

definition np_divide :: "real \<Rightarrow> real \<Rightarrow> npfloat" where
  "np_divide a b =
     (if b \<noteq> 0 then Finite (a / b)
      else if 0 < a then PosInf
      else if a < 0 then NegInf
      else NaN)"

text \<open>The comparison \<open>v <= u\<close> of a float with a finite float.\<close>

fun np_le :: "npfloat \<Rightarrow> real \<Rightarrow> bool" where
  "np_le (Finite a) b = (a \<le> b)"
| "np_le PosInf b = False"
| "np_le NegInf b = True"
| "np_le NaN b = False"

text \<open>
  The Python exceptions the module and numpy raise. A message is the text of the
  exception; a key interpolated into an f-string is rendered by the key type's
  \<open>format\<close>, a parameter of the functions that do so.
\<close>

datatype error =
    RuntimeError string
  | NotImplementedError string
  | ValueError
  | TypeError
  | IndexError
  | KeyError string
  | AttributeError

text \<open>
  The containers the module's docstrings name. \<open>supported_types_check\<close> lives in
  \<open>deel.puncc.api.utils\<close>, a module this theory does not embed: its verdict on
  the containers of its arguments is a parameter of every function that calls it
  (\<open>True\<close>: the check passes; \<open>False\<close>: it raises a type error).
\<close>

datatype container = NdArray | DataFrame | Tensor

type_synonym types_check = "container list \<Rightarrow> bool"

text \<open>
  numpy arrays of dimension at most two. A two-dimensional array carries its number
  of columns, which the rows of an array without rows cannot tell.
\<close>

datatype 'a ndarray = Array0 'a | Array1 "'a list" | Array2 nat "'a list list"

fun wf_ndarray :: "'a ndarray \<Rightarrow> bool" where
  "wf_ndarray (Array2 m rs) = list_all (\<lambda>r. length r = m) rs"
| "wf_ndarray _ = True"

fun ndim :: "'a ndarray \<Rightarrow> nat" where
  "ndim (Array0 x) = 0"
| "ndim (Array1 xs) = 1"
| "ndim (Array2 m rs) = 2"

fun shape :: "'a ndarray \<Rightarrow> nat list" where
  "shape (Array0 x) = []"
| "shape (Array1 xs) = [length xs]"
| "shape (Array2 m rs) = [length rs, m]"

text \<open>\<open>a.shape[j]\<close>: a tuple index, out of range for an array of fewer dimensions.\<close>

definition shape_at :: "'a ndarray \<Rightarrow> nat \<Rightarrow> error + nat" where
  "shape_at a j = (if j < length (shape a) then Inr (shape a ! j) else Inl IndexError)"

text \<open>\<open>len(a)\<close>: the leading dimension; a zero-dimensional array has none.\<close>

fun np_len :: "'a ndarray \<Rightarrow> error + nat" where
  "np_len (Array0 x) = Inl TypeError"
| "np_len (Array1 xs) = Inr (length xs)"
| "np_len (Array2 m rs) = Inr (length rs)"

text \<open>The elements in row-major order.\<close>

fun flat :: "'a ndarray \<Rightarrow> 'a list" where
  "flat (Array0 x) = [x]"
| "flat (Array1 xs) = xs"
| "flat (Array2 m rs) = concat rs"

subsection \<open>Broadcasting\<close>

text \<open>
  numpy aligns the shapes of the two operands on the right and pads the shorter one
  with ones on the left: every array is seen as a two-dimensional one. Two
  dimensions are compatible when they are equal or one of them is 1; the result has
  the dimension of the operand of highest dimension.
\<close>

fun rows2 :: "'a ndarray \<Rightarrow> 'a list list" where
  "rows2 (Array0 x) = [[x]]"
| "rows2 (Array1 xs) = [xs]"
| "rows2 (Array2 m rs) = rs"

fun ncols2 :: "'a ndarray \<Rightarrow> nat" where
  "ncols2 (Array0 x) = 1"
| "ncols2 (Array1 xs) = length xs"
| "ncols2 (Array2 m rs) = m"

definition bdim :: "nat \<Rightarrow> nat \<Rightarrow> nat option" where
  "bdim a b = (if a = b then Some a else if a = 1 then Some b
               else if b = 1 then Some a else None)"

definition stretch :: "nat \<Rightarrow> 'a list \<Rightarrow> 'a list" where
  "stretch n xs = (if length xs = n then xs else replicate n (hd xs))"

definition squeeze :: "nat \<Rightarrow> nat \<Rightarrow> 'a list list \<Rightarrow> 'a ndarray" where
  "squeeze d m rs =
     (if d = 0 then Array0 (hd (hd rs)) else if d = 1 then Array1 (hd rs) else Array2 m rs)"

definition broadcast ::
  "('a \<Rightarrow> 'b \<Rightarrow> 'c) \<Rightarrow> 'a ndarray \<Rightarrow> 'b ndarray \<Rightarrow> error + 'c ndarray" where
  "broadcast f a b =
     (case (bdim (length (rows2 a)) (length (rows2 b)), bdim (ncols2 a) (ncols2 b)) of
        (Some n, Some m) \<Rightarrow>
          Inr (squeeze (max (ndim a) (ndim b)) m
                 (map2 (\<lambda>r s. map2 f (stretch m r) (stretch m s))
                    (stretch n (rows2 a)) (stretch n (rows2 b))))
      | _ \<Rightarrow> Inl ValueError)"

definition np_subtract :: "real ndarray \<Rightarrow> real ndarray \<Rightarrow> error + real ndarray" where
  "np_subtract a b = broadcast (\<lambda>x y. x - y) a b"

definition np_add :: "real ndarray \<Rightarrow> real ndarray \<Rightarrow> error + real ndarray" where
  "np_add a b = broadcast (\<lambda>x y. x + y) a b"

fun map_ndarray :: "('a \<Rightarrow> 'b) \<Rightarrow> 'a ndarray \<Rightarrow> 'b ndarray" where
  "map_ndarray f (Array0 x) = Array0 (f x)"
| "map_ndarray f (Array1 xs) = Array1 (map f xs)"
| "map_ndarray f (Array2 m rs) = Array2 m (map (map f) rs)"

text \<open>Sequencing of fallible steps: the first exception raised ends the call.\<close>

definition bind :: "'e + 'a \<Rightarrow> ('a \<Rightarrow> 'e + 'b) \<Rightarrow> 'e + 'b" where
  "bind r f = (case r of Inl e \<Rightarrow> Inl e | Inr x \<Rightarrow> f x)"

text \<open>\<open>a[:, j]\<close>: column \<open>j\<close> of a two-dimensional array.\<close>

fun np_column :: "'a ndarray \<Rightarrow> nat \<Rightarrow> error + 'a ndarray" where
  "np_column (Array2 m rs) j = (if j < m then Inr (Array1 (map (\<lambda>r. r ! j) rs)) else Inl IndexError)"
| "np_column _ j = Inl IndexError"

definition np_absolute :: "real ndarray \<Rightarrow> real ndarray" where
  "np_absolute a = map_ndarray abs a"

definition np_maximum :: "real ndarray \<Rightarrow> real ndarray \<Rightarrow> error + real ndarray" where
  "np_maximum a b = broadcast max a b"

definition np_true_divide :: "real ndarray \<Rightarrow> real ndarray \<Rightarrow> error + npfloat ndarray" where
  "np_true_divide a b = broadcast np_divide a b"

section \<open>Nonconformity scores: regression\<close>

text \<open>
  \<^verbatim>\<open>
  def MAD(y_pred, y_true):
      supported_types_check(y_pred, y_true)
      diff = y_pred - y_true
      if isinstance(y_pred, np.ndarray):
          return np.absolute(diff)
      ...
  \<close>
  The arguments are numpy arrays, so the first branch of the \<open>isinstance\<close> chain is
  the one taken.
\<close>

definition MAD :: "types_check \<Rightarrow> real ndarray \<Rightarrow> real ndarray \<Rightarrow> error + real ndarray" where
  "MAD supported_types_check y_pred y_true =
     (if \<not> supported_types_check [NdArray, NdArray] then Inl TypeError
      else bind (np_subtract y_pred y_true) (\<lambda>diff. Inr (np_absolute diff)))"

text \<open>
  \<^verbatim>\<open>
  def SCALED_MAD(Y_pred, y_true):
      supported_types_check(Y_pred, y_true)
      if Y_pred.shape[1] != 2:
          raise RuntimeError(
              f"Each Y_pred must contain a point prediction and a dispersion estimation.")
      if len(y_true.shape) != 1:
          raise RuntimeError(f"Each y_pred must contain a point observation.")
      ...
          y_pred, var_pred = Y_pred[:, 0], Y_pred[:, 1]
      mad = NonConformityScores.Regression.MAD(y_pred, y_true)
      return mad / (var_pred + EPSILON)
  \<close>
  \<open>EPSILON\<close> is imported from \<open>deel.puncc.api.utils\<close>, a module this theory does
  not embed: it is a parameter.
\<close>

definition SCALED_MAD ::
  "types_check \<Rightarrow> real \<Rightarrow> real ndarray \<Rightarrow> real ndarray \<Rightarrow> error + npfloat ndarray" where
  "SCALED_MAD supported_types_check EPSILON Y_pred y_true =
     (if \<not> supported_types_check [NdArray, NdArray] then Inl TypeError
      else bind (shape_at Y_pred 1) (\<lambda>d.
        if d \<noteq> 2 then
          Inl (RuntimeError
            ''Each Y_pred must contain a point prediction and a dispersion estimation.'')
        else if length (shape y_true) \<noteq> 1 then
          Inl (RuntimeError ''Each y_pred must contain a point observation.'')
        else bind (np_column Y_pred 0) (\<lambda>y_pred.
             bind (np_column Y_pred 1) (\<lambda>var_pred.
             bind (MAD supported_types_check y_pred y_true) (\<lambda>mad.
             bind (np_add var_pred (Array0 EPSILON)) (\<lambda>denom.
             np_true_divide mad denom))))))"

text \<open>
  \<^verbatim>\<open>
  def CQR_SCORE(Y_pred, y_true):
      supported_types_check(Y_pred, y_true)
      if Y_pred.shape[1] != 2:
          raise RuntimeError(
              f"Each Y_pred must contain lower and higher quantiles estimations.")
      if len(y_true.shape) != 1:
          raise RuntimeError(f"Each y_pred must contain a point observation.")
      ...
          q_lo, q_hi = Y_pred[:, 0], Y_pred[:, 1]
      diff_lo = q_lo - y_true
      diff_hi = y_true - q_hi
      if isinstance(diff_lo, np.ndarray):
          return np.maximum(diff_lo, diff_hi)
      ...
  \<close>
\<close>

definition CQR_SCORE ::
  "types_check \<Rightarrow> real ndarray \<Rightarrow> real ndarray \<Rightarrow> error + real ndarray" where
  "CQR_SCORE supported_types_check Y_pred y_true =
     (if \<not> supported_types_check [NdArray, NdArray] then Inl TypeError
      else bind (shape_at Y_pred 1) (\<lambda>d.
        if d \<noteq> 2 then
          Inl (RuntimeError
            ''Each Y_pred must contain lower and higher quantiles estimations.'')
        else if length (shape y_true) \<noteq> 1 then
          Inl (RuntimeError ''Each y_pred must contain a point observation.'')
        else bind (np_column Y_pred 0) (\<lambda>q_lo.
             bind (np_column Y_pred 1) (\<lambda>q_hi.
             bind (np_subtract q_lo y_true) (\<lambda>diff_lo.
             bind (np_subtract y_true q_hi) (\<lambda>diff_hi.
             np_maximum diff_lo diff_hi))))))"

section \<open>Prediction sets: regression\<close>

text \<open>
  \<^verbatim>\<open>
  def CONSTANT_INTERVAL(y_pred, scores_quantiles):
      supported_types_check(y_pred)
      y_lo = y_pred - scores_quantiles
      y_hi = y_pred + scores_quantiles
      return y_lo, y_hi
  \<close>
\<close>

definition CONSTANT_INTERVAL ::
  "types_check \<Rightarrow> real ndarray \<Rightarrow> real ndarray \<Rightarrow> error + (real ndarray \<times> real ndarray)" where
  "CONSTANT_INTERVAL supported_types_check y_pred scores_quantiles =
     (if \<not> supported_types_check [NdArray] then Inl TypeError
      else bind (np_subtract y_pred scores_quantiles) (\<lambda>y_lo.
           bind (np_add y_pred scores_quantiles) (\<lambda>y_hi.
           Inr (y_lo, y_hi))))"

text \<open>
  \<^verbatim>\<open>
  def CQR_INTERVAL(Y_pred, scores_quantiles):
      supported_types_check(Y_pred)
      if Y_pred.shape[1] != 2:
          raise RuntimeError(
              f"Each Y_pred must contain lower and higher quantiles predictions, respectively.")
      ...
          q_lo, q_hi = Y_pred[:, 0], Y_pred[:, 1]
      y_lo = q_lo - scores_quantiles
      y_hi = q_hi + scores_quantiles
      return y_lo, y_hi
  \<close>
\<close>

definition CQR_INTERVAL ::
  "types_check \<Rightarrow> real ndarray \<Rightarrow> real ndarray \<Rightarrow> error + (real ndarray \<times> real ndarray)" where
  "CQR_INTERVAL supported_types_check Y_pred scores_quantiles =
     (if \<not> supported_types_check [NdArray] then Inl TypeError
      else bind (shape_at Y_pred 1) (\<lambda>d.
        if d \<noteq> 2 then
          Inl (RuntimeError
            ''Each Y_pred must contain lower and higher quantiles predictions, respectively.'')
        else bind (np_column Y_pred 0) (\<lambda>q_lo.
             bind (np_column Y_pred 1) (\<lambda>q_hi.
             bind (np_subtract q_lo scores_quantiles) (\<lambda>y_lo.
             bind (np_add q_hi scores_quantiles) (\<lambda>y_hi.
             Inr (y_lo, y_hi)))))))"

section \<open>BaseCalibrator\<close>

text \<open>
  \<^verbatim>\<open>
  def barber_weights(*, X, weights_calib):
      calib_size = len(weights_calib)
      sum_w_calib = np.sum(weights_calib)
      w_norm = np.zeros((len(X), calib_size + 1))
      for i in range(len(X)):
          w_norm[i, :calib_size] = weights_calib / (sum_w_calib + 1)
          w_norm[i, calib_size] = 1 / (sum_w_calib + 1)
      return w_norm
  \<close>
  \<open>weights_calib\<close> is a one-dimensional array. The body of the loop writes row \<open>i\<close>
  of \<open>w_norm\<close>: the slice of its first \<open>calib_size\<close> columns, then column
  \<open>calib_size\<close>.
\<close>

definition barber_assign :: "real list \<Rightarrow> npfloat list list \<Rightarrow> nat \<Rightarrow> npfloat list list" where
  "barber_assign weights_calib w_norm i =
     (let calib_size = length weights_calib;
          sum_w_calib = sum_list weights_calib;
          row1 = map (\<lambda>w. np_divide w (sum_w_calib + 1)) weights_calib
                   @ drop calib_size (w_norm ! i);
          row2 = row1[calib_size := np_divide 1 (sum_w_calib + 1)]
      in w_norm[i := row2])"

definition barber_weights :: "'a ndarray \<Rightarrow> real list \<Rightarrow> error + npfloat ndarray" where
  "barber_weights X weights_calib =
     bind (np_len X) (\<lambda>len_X.
       let calib_size = length weights_calib;
           w_norm = replicate len_X (replicate (calib_size + 1) (Finite 0))
       in Inr (Array2 (calib_size + 1)
                 (foldl (barber_assign weights_calib) w_norm [0..<len_X])))"

text \<open>
  The calibrator: the two functions it is configured with, the optional weight
  function, and the state \<open>fit\<close> writes (\<open>_len_calib\<close>, \<open>_residuals\<close>,
  \<open>_norm_weights\<close>). The residuals are finite scores.
\<close>

record ('p, 'q, 'o, 'wf) BaseCalibrator =
  nonconf_score_func :: "'p \<Rightarrow> real ndarray \<Rightarrow> error + real ndarray"
  pred_set_func :: "'p \<Rightarrow> 'q list \<Rightarrow> error + 'o"
  weight_func :: "'wf option"
  len_calib :: nat
  residuals :: "real ndarray option"
  norm_weights :: "npfloat ndarray option"

definition BaseCalibrator_init ::
  "('p \<Rightarrow> real ndarray \<Rightarrow> error + real ndarray) \<Rightarrow> ('p \<Rightarrow> 'q list \<Rightarrow> error + 'o) \<Rightarrow> 'wf option
     \<Rightarrow> ('p, 'q, 'o, 'wf) BaseCalibrator" where
  "BaseCalibrator_init score_f set_f weight_f =
     \<lparr> nonconf_score_func = score_f, pred_set_func = set_f, weight_func = weight_f,
       len_calib = 0, residuals = None, norm_weights = None \<rparr>"

text \<open>
  \<^verbatim>\<open>
  def fit(self, *, y_true, y_pred):
      self._residuals = self.nonconf_score_func(y_pred, y_true)
      self._len_calib = len(self._residuals)
  \<close>
  The call returns the calibrator as the call leaves it, and the exception if one
  was raised.
\<close>

definition fit ::
  "('p, 'q, 'o, 'wf) BaseCalibrator \<Rightarrow> real ndarray \<Rightarrow> 'p
     \<Rightarrow> ('p, 'q, 'o, 'wf) BaseCalibrator \<times> error option" where
  "fit self y_true y_pred =
     (case nonconf_score_func self y_pred y_true of
        Inl e \<Rightarrow> (self, Some e)
      | Inr r \<Rightarrow>
          (let self1 = self\<lparr>residuals := Some r\<rparr> in
           case np_len r of
             Inl e \<Rightarrow> (self1, Some e)
           | Inr n \<Rightarrow> (self1\<lparr>len_calib := n\<rparr>, None)))"

text \<open>
  \<open>check_alpha_calib\<close> and \<open>quantile\<close> are imported from \<open>deel.puncc.api.utils\<close>,
  a module this theory does not embed: both are parameters of \<open>calibrate\<close>.
  \<open>check_alpha_calib alpha n\<close> is \<open>Some e\<close> when the check raises \<open>e\<close>.

  To tell what \<open>calibrate\<close> did before it returned or raised, the model returns the
  calls made to the two helpers and to \<open>pred_set_func\<close>, in the order they were made.
\<close>

datatype 'w event =
    Call_check_alpha_calib real nat
  | Call_quantile "npfloat list" real "'w option"
  | Call_pred_set_func

text \<open>
  \<open>np.concatenate((self._residuals, infty_array))\<close>: both arrays must be
  one-dimensional.
\<close>

fun concatenate_inf :: "real ndarray \<Rightarrow> error + npfloat list" where
  "concatenate_inf (Array1 rs) = Inr (map Finite rs @ [PosInf])"
| "concatenate_inf _ = Inl ValueError"

text \<open>
  \<^verbatim>\<open>
  for w in it_weights:
      infty_array = np.array([np.inf])
      lemma_residuals = np.concatenate((self._residuals, infty_array))
      residuals_Q = quantile(lemma_residuals, 1 - alpha, w=w)
      residuals_Qs.append(residuals_Q)
  \<close>
\<close>

fun quantile_loop ::
  "(npfloat list \<Rightarrow> real \<Rightarrow> 'w option \<Rightarrow> error + 'q) \<Rightarrow> real ndarray \<Rightarrow> real
     \<Rightarrow> 'w option list \<Rightarrow> 'q list \<Rightarrow> 'w event list \<times> (error + 'q list)" where
  "quantile_loop quantile rs alpha [] residuals_Qs = ([], Inr residuals_Qs)"
| "quantile_loop quantile rs alpha (w # ws) residuals_Qs =
     (case concatenate_inf rs of
        Inl e \<Rightarrow> ([], Inl e)
      | Inr lemma_residuals \<Rightarrow>
          (case quantile lemma_residuals (1 - alpha) w of
             Inl e \<Rightarrow> ([Call_quantile lemma_residuals (1 - alpha) w], Inl e)
           | Inr residuals_Q \<Rightarrow>
               (let (tr, r) = quantile_loop quantile rs alpha ws (residuals_Qs @ [residuals_Q])
                in (Call_quantile lemma_residuals (1 - alpha) w # tr, r))))"

text \<open>
  \<^verbatim>\<open>
  def calibrate(self, alpha, y_pred, weights=None):
      if self._residuals is None:
          raise RuntimeError("Run `fit` method before calling `calibrate`.")
      check_alpha_calib(alpha=alpha, n=self._len_calib)
      residuals_Qs = list()
      if weights is None:
          it_weights = [None]
      else:
          it_weights = weights
      for w in it_weights:
          ...
      return self.pred_set_func(y_pred, scores_quantiles=residuals_Qs)
  \<close>
\<close>

definition calibrate ::
  "(real \<Rightarrow> nat \<Rightarrow> error option) \<Rightarrow> (npfloat list \<Rightarrow> real \<Rightarrow> 'w option \<Rightarrow> error + 'q)
     \<Rightarrow> ('p, 'q, 'o, 'wf) BaseCalibrator \<Rightarrow> real \<Rightarrow> 'p \<Rightarrow> 'w list option
     \<Rightarrow> 'w event list \<times> (error + 'o)" where
  "calibrate check_alpha_calib quantile self alpha y_pred weights =
     (case residuals self of
        None \<Rightarrow> ([], Inl (RuntimeError ''Run `fit` method before calling `calibrate`.''))
      | Some rs \<Rightarrow>
          (case check_alpha_calib alpha (len_calib self) of
             Some e \<Rightarrow> ([Call_check_alpha_calib alpha (len_calib self)], Inl e)
           | None \<Rightarrow>
               (let it_weights = (case weights of None \<Rightarrow> [None] | Some ws \<Rightarrow> map Some ws)
                in case quantile_loop quantile rs alpha it_weights [] of
                     (tr, Inl e) \<Rightarrow>
                       (Call_check_alpha_calib alpha (len_calib self) # tr, Inl e)
                   | (tr, Inr residuals_Qs) \<Rightarrow>
                       (Call_check_alpha_calib alpha (len_calib self) # tr @ [Call_pred_set_func],
                        pred_set_func self y_pred residuals_Qs))))"

section \<open>CvPlusCalibrator\<close>

text \<open>
  A Python \<open>dict\<close> is an association list in insertion order; \<open>None\<close> stands for an
  absent mapping or an absent calibrator.
\<close>

record ('k, 'p, 'q, 'o, 'wf) CvPlusCalibrator =
  kfold_calibrators_dict :: "('k \<times> ('p, 'q, 'o, 'wf) BaseCalibrator option) list"

text \<open>
  \<^verbatim>\<open>
  for k, calibrator in self.kfold_calibrators_dict.items():
      if calibrator is None:
          raise RuntimeError(f"Fold {k} calibrator is not defined.")
  \<close>
\<close>

fun check_calibrators ::
  "('k \<Rightarrow> string) \<Rightarrow> ('k \<times> 'c option) list \<Rightarrow> error option" where
  "check_calibrators format [] = None"
| "check_calibrators format ((k, calibrator) # items) =
     (if calibrator = None
      then Some (RuntimeError (''Fold '' @ format k @ '' calibrator is not defined.''))
      else check_calibrators format items)"

text \<open>
  \<^verbatim>\<open>
  def __init__(self, kfold_calibrators: dict):
      self.kfold_calibrators_dict = kfold_calibrators
      if kfold_calibrators is None:
          raise RuntimeError("Calibrators not defined.")
      for k, calibrator in self.kfold_calibrators_dict.items():
          ...
  \<close>
\<close>

definition CvPlusCalibrator_init ::
  "('k \<Rightarrow> string) \<Rightarrow> ('k \<times> ('p, 'q, 'o, 'wf) BaseCalibrator option) list option
     \<Rightarrow> error + ('k, 'p, 'q, 'o, 'wf) CvPlusCalibrator" where
  "CvPlusCalibrator_init format kfold_calibrators =
     (case kfold_calibrators of
        None \<Rightarrow> Inl (RuntimeError ''Calibrators not defined.'')
      | Some d \<Rightarrow>
          (case check_calibrators format d of
             Some e \<Rightarrow> Inl e
           | None \<Rightarrow> Inr \<lparr> kfold_calibrators_dict = d \<rparr>))"

subsection \<open>The numpy functions of \<open>calibrate\<close>\<close>

text \<open>
  \<open>np.reshape(a, (n, m))\<close>: the elements in row-major order, cut into \<open>n\<close> rows of
  \<open>m\<close>; a value error when \<open>a\<close> does not have \<open>n * m\<close> elements.
\<close>

definition np_reshape :: "'a ndarray \<Rightarrow> nat \<Rightarrow> nat \<Rightarrow> error + 'a ndarray" where
  "np_reshape a n m =
     (if length (flat a) = n * m
      then Inr (Array2 m (map (\<lambda>i. take m (drop (i * m) (flat a))) [0..<n]))
      else Inl ValueError)"

text \<open>\<open>np.concatenate([a, b], axis=1)\<close> of two-dimensional arrays.\<close>

fun np_concatenate1 :: "'a ndarray \<Rightarrow> 'a ndarray \<Rightarrow> error + 'a ndarray" where
  "np_concatenate1 (Array2 m rs) (Array2 m' rs') =
     (if length rs = length rs' then Inr (Array2 (m + m') (map2 (@) rs rs'))
      else Inl ValueError)"
| "np_concatenate1 _ _ = Inl ValueError"

text \<open>
  \<open>np.quantile(a, q, method="inverted_cdf")\<close> on a sample of \<open>n\<close> values, as numpy
  computes it: the virtual index is \<open>n * q - 1\<close>; the index taken in the sorted sample
  is its floor when the index is whole (\<open>gamma = 0\<close>) and its floor plus one
  otherwise, and a negative index is clipped to 0.
\<close>

definition inverted_cdf_index :: "nat \<Rightarrow> real \<Rightarrow> nat" where
  "inverted_cdf_index n q =
     (let index = real n * q - 1;
          previous = \<lfloor>index\<rfloor>;
          gamma = index - real_of_int previous;
          res = (if gamma = 0 then previous else previous + 1)
      in nat (if res < 0 then 0 else res))"

definition inverted_cdf :: "real \<Rightarrow> real list \<Rightarrow> real" where
  "inverted_cdf q xs = sort xs ! inverted_cdf_index (length xs) q"

text \<open>
  \<open>np.quantile(a, q, axis=1, method="inverted_cdf")\<close> of a two-dimensional array: the
  quantile of every row. numpy raises a value error for \<open>q\<close> outside \<open>[0, 1]\<close>, and
  cannot index a row without elements.
\<close>

fun np_quantile1 :: "real ndarray \<Rightarrow> real \<Rightarrow> error + real ndarray" where
  "np_quantile1 (Array2 m rs) q =
     (if \<not> (0 \<le> q \<and> q \<le> 1) then Inl ValueError
      else if m = 0 then Inl IndexError
      else Inr (Array1 (map (inverted_cdf q) rs)))"
| "np_quantile1 _ q = Inl ValueError"

definition np_scale :: "real \<Rightarrow> real ndarray \<Rightarrow> real ndarray" where
  "np_scale c a = map_ndarray (\<lambda>x. c * x) a"

subsection \<open>\<open>calibrate\<close>\<close>

text \<open>
  \<open>self.kfold_calibrators_dict[k]._residuals\<close>: a key error for a fold without
  calibrator, an attribute error on an absent calibrator.
\<close>

definition fold_residuals ::
  "('k \<Rightarrow> string) \<Rightarrow> ('k, 'p, 'q, 'o, 'wf) CvPlusCalibrator \<Rightarrow> 'k \<Rightarrow> error + real ndarray option" where
  "fold_residuals format self k =
     (case map_of (kfold_calibrators_dict self) k of
        None \<Rightarrow> Inl (KeyError (format k))
      | Some None \<Rightarrow> Inl AttributeError
      | Some (Some calibrator) \<Rightarrow> Inr (residuals calibrator))"

text \<open>
  \<^verbatim>\<open>
  for k, predictor in kfold_predictors_dict.items():
      y_pred = predictor.predict(X)
      if y_pred is None:
          raise RuntimeError("No point predictor provided with cv+.")
      y_pred = np.reshape(y_pred, (len(y_pred), 1))
      residuals = self.kfold_calibrators_dict[k]._residuals
      residuals = np.reshape(residuals, (1, len(residuals)))
      if concat_y_lo is None or concat_y_hi is None:
          concat_y_lo, concat_y_hi = PredictionSets.Regression.CONSTANT_INTERVAL(y_pred, residuals)
      else:
          y_lo, y_hi = PredictionSets.Regression.CONSTANT_INTERVAL(y_pred, residuals)
          concat_y_lo = np.concatenate([concat_y_lo, y_lo], axis=1)
          concat_y_hi = np.concatenate([concat_y_hi, y_hi], axis=1)
  \<close>
  A predictor is its \<open>predict\<close> method. The state of the loop is the pair
  \<open>(concat_y_lo, concat_y_hi)\<close>; \<open>len(None)\<close> is a type error.
\<close>

fun cv_loop ::
  "types_check \<Rightarrow> ('k \<Rightarrow> string) \<Rightarrow> ('k, 'p, 'q, 'o, 'wf) CvPlusCalibrator \<Rightarrow> 'x
     \<Rightarrow> ('k \<times> ('x \<Rightarrow> real ndarray option)) list
     \<Rightarrow> real ndarray option \<times> real ndarray option
     \<Rightarrow> error + (real ndarray option \<times> real ndarray option)" where
  "cv_loop chk format self X [] (concat_y_lo, concat_y_hi) = Inr (concat_y_lo, concat_y_hi)"
| "cv_loop chk format self X ((k, predict) # items) (concat_y_lo, concat_y_hi) =
     (case predict X of
        None \<Rightarrow> Inl (RuntimeError ''No point predictor provided with cv+.'')
      | Some y_pred0 \<Rightarrow>
          bind (np_len y_pred0) (\<lambda>n.
          bind (np_reshape y_pred0 n 1) (\<lambda>y_pred.
          bind (fold_residuals format self k) (\<lambda>res0.
          case res0 of
            None \<Rightarrow> Inl TypeError
          | Some res1 \<Rightarrow>
              bind (np_len res1) (\<lambda>m.
              bind (np_reshape res1 1 m) (\<lambda>res.
              bind (CONSTANT_INTERVAL chk y_pred res) (\<lambda>(y_lo, y_hi).
              case (concat_y_lo, concat_y_hi) of
                (Some c_lo, Some c_hi) \<Rightarrow>
                  bind (np_concatenate1 c_lo y_lo) (\<lambda>c_lo'.
                  bind (np_concatenate1 c_hi y_hi) (\<lambda>c_hi'.
                  cv_loop chk format self X items (Some c_lo', Some c_hi')))
              | _ \<Rightarrow> cv_loop chk format self X items (Some y_lo, Some y_hi))))))))"

text \<open>
  \<^verbatim>\<open>
  if concat_y_lo is None or concat_y_hi is None:
      raise RuntimeError("This should never happen.")
  else:
      y_lo = (-1) * np.quantile((-1) * concat_y_lo, 1 - alpha, axis=1, method="inverted_cdf")
      y_hi = np.quantile(concat_y_hi, 1 - alpha, axis=1, method="inverted_cdf")
      return y_lo, y_hi
  \<close>
\<close>

definition CvPlus_calibrate ::
  "types_check \<Rightarrow> ('k \<Rightarrow> string) \<Rightarrow> ('k, 'p, 'q, 'o, 'wf) CvPlusCalibrator \<Rightarrow> 'x
     \<Rightarrow> ('k \<times> ('x \<Rightarrow> real ndarray option)) list \<Rightarrow> real
     \<Rightarrow> error + (real ndarray \<times> real ndarray)" where
  "CvPlus_calibrate chk format self X kfold_predictors_dict alpha =
     bind (cv_loop chk format self X kfold_predictors_dict (None, None)) (\<lambda>concat.
       case concat of
         (Some concat_y_lo, Some concat_y_hi) \<Rightarrow>
           bind (np_quantile1 (np_scale (-1) concat_y_lo) (1 - alpha)) (\<lambda>q_lo.
           let y_lo = np_scale (-1) q_lo in
           bind (np_quantile1 concat_y_hi (1 - alpha)) (\<lambda>y_hi.
           Inr (y_lo, y_hi)))
       | _ \<Rightarrow> Inl (RuntimeError ''This should never happen.''))"

subsection \<open>The candidate bounds of CV+, as the specification words them\<close>

text \<open>
  Stated from the specification, to compare \<open>CvPlus_calibrate\<close> with: a fold is usable
  for \<open>n\<close> test points when its predictor returns \<open>n\<close> predictions and its calibrator
  holds a one-dimensional residual sample. For test point \<open>i\<close>, the candidates of a
  fold are its prediction for \<open>i\<close> combined with each of its residuals; the pooled
  candidates are those of all folds, in the order of the folds.
\<close>

definition spec_fold_ok ::
  "('k, 'p, 'q, 'o, 'wf) CvPlusCalibrator \<Rightarrow> 'x \<Rightarrow> nat
     \<Rightarrow> 'k \<times> ('x \<Rightarrow> real ndarray option) \<Rightarrow> bool" where
  "spec_fold_ok self X n p =
     (case snd p X of
        Some (Array1 ys) \<Rightarrow>
          length ys = n \<and>
          (case map_of (kfold_calibrators_dict self) (fst p) of
             Some (Some c) \<Rightarrow> (case residuals c of Some (Array1 rs) \<Rightarrow> True | _ \<Rightarrow> False)
           | _ \<Rightarrow> False)
      | _ \<Rightarrow> False)"

definition spec_fold_residuals ::
  "('k, 'p, 'q, 'o, 'wf) CvPlusCalibrator \<Rightarrow> 'k \<Rightarrow> real list" where
  "spec_fold_residuals self k =
     flat (the (residuals (the (the (map_of (kfold_calibrators_dict self) k)))))"

definition spec_candidates ::
  "(real \<Rightarrow> real \<Rightarrow> real) \<Rightarrow> ('k, 'p, 'q, 'o, 'wf) CvPlusCalibrator \<Rightarrow> 'x
     \<Rightarrow> ('k \<times> ('x \<Rightarrow> real ndarray option)) list \<Rightarrow> nat \<Rightarrow> real list" where
  "spec_candidates f self X ps i =
     concat (map (\<lambda>p. map (\<lambda>r. f (flat (the (snd p X)) ! i) r)
                         (spec_fold_residuals self (fst p))) ps)"

section \<open>RAPS: classification score and prediction sets\<close>

text \<open>
  The uniform draws \<open>np.random.uniform(size=n)\<close> come from the generator
  \<open>uniform\<close>, a parameter: the array of \<open>n\<close> draws the call returns.
\<close>

type_synonym generator = "nat \<Rightarrow> real list"

text \<open>List indexing that raises out of range; Python's integer index counts from the
  end when negative.\<close>

definition nth_err :: "'a list \<Rightarrow> nat \<Rightarrow> error + 'a" where
  "nth_err xs i = (if i < length xs then Inr (xs ! i) else Inl IndexError)"

definition py_index :: "'a list \<Rightarrow> int \<Rightarrow> error + 'a" where
  "py_index xs j =
     (let n = int (length xs); j' = (if j < 0 then n + j else j)
      in if 0 \<le> j' \<and> j' < n then Inr (xs ! nat j') else Inl IndexError)"

text \<open>A list comprehension whose element may raise: the first exception ends it.\<close>

fun traverse :: "('a \<Rightarrow> error + 'b) \<Rightarrow> 'a list \<Rightarrow> error + 'b list" where
  "traverse f [] = Inr []"
| "traverse f (x # xs) = bind (f x) (\<lambda>y. bind (traverse f xs) (\<lambda>ys. Inr (y # ys)))"

text \<open>
  Operations along \<open>axis=1\<close> need a two-dimensional array (numpy's axis error is a
  value error).
\<close>

fun rows_axis1 :: "'a ndarray \<Rightarrow> error + 'a list list" where
  "rows_axis1 (Array2 m rs) = Inr rs"
| "rows_axis1 _ = Inl ValueError"

text \<open>
  \<open>np.argsort(-row)\<close>: the class indices by ascending negated probability, equal
  probabilities in index order; \<open>-np.sort(-row)\<close>; \<open>row.cumsum()\<close>, the running sums.
\<close>

definition argsort_neg :: "real list \<Rightarrow> nat list" where
  "argsort_neg row = sort_key (\<lambda>j. - (row ! j)) [0..<length row]"

definition sort_neg :: "real list \<Rightarrow> real list" where
  "sort_neg row = map uminus (sort (map uminus row))"

fun cumsum_from :: "real \<Rightarrow> real list \<Rightarrow> real list" where
  "cumsum_from a [] = []"
| "cumsum_from a (x # xs) = (a + x) # cumsum_from (a + x) xs"

definition cumsum :: "real list \<Rightarrow> real list" where
  "cumsum xs = cumsum_from 0 xs"

text \<open>\<open>np.where(ranking == y)[0][0]\<close>: the first position of \<open>y\<close>, an index error
  when there is none.\<close>

fun where_first :: "nat list \<Rightarrow> int \<Rightarrow> error + nat" where
  "where_first [] y = Inl IndexError"
| "where_first (c # cs) y =
     (if int c = y then Inr 0 else bind (where_first cs y) (\<lambda>j. Inr (Suc j)))"

text \<open>
  \<^verbatim>\<open>
  def _RAPS_SCORE(Y_pred, y_true):
      supported_types_check(Y_pred, y_true)
      if not isinstance(Y_pred, np.ndarray):
          raise NotImplementedError(
              "RAPS nonconformity scores only implemented for ndarrays")
      rand = np.random.uniform(size=len(y_true))
      class_ranking = np.argsort(-Y_pred, axis=1)
      sorted_proba = -np.sort(-Y_pred, axis=1)
      sorted_cum_mass = sorted_proba.cumsum(axis=1)
      L = [np.where(class_ranking[i] == y_true[i])[0][0]
           for i in range(y_true.shape[0])]
      E = [sorted_cum_mass[i, L[i]] for i in range(y_true.shape[0])]
      E = [E[i] + (rand[i] - 1) * sorted_proba[i, L[i]]
           + lambd * np.maximum((L[i] - k_reg + 1), 0)
           for i in range(y_true.shape[0])]
      return np.array(E)
  \<close>
  \<open>kind\<close> is the container of \<open>Y_pred\<close>; \<open>y_true\<close> is a vector of class indices.
\<close>

definition RAPS_SCORE ::
  "real \<Rightarrow> int \<Rightarrow> types_check \<Rightarrow> generator \<Rightarrow> container \<Rightarrow> real ndarray \<Rightarrow> int list
     \<Rightarrow> error + real ndarray" where
  "RAPS_SCORE lambd k_reg supported_types_check uniform kind Y_pred y_true =
     (if \<not> supported_types_check [kind, NdArray] then Inl TypeError
      else if kind \<noteq> NdArray then
        Inl (NotImplementedError ''RAPS nonconformity scores only implemented for ndarrays'')
      else
        let rand = uniform (length y_true) in
        bind (rows_axis1 Y_pred) (\<lambda>rows.
        let class_ranking = map argsort_neg rows;
            sorted_proba = map sort_neg rows;
            sorted_cum_mass = map cumsum sorted_proba;
            is = [0..<length y_true]
        in
        bind (traverse (\<lambda>i. bind (nth_err class_ranking i) (\<lambda>ranking.
                                where_first ranking (y_true ! i))) is) (\<lambda>L.
        bind (traverse (\<lambda>i. bind (nth_err sorted_cum_mass i) (\<lambda>cum.
                                nth_err cum (L ! i))) is) (\<lambda>E.
        bind (traverse (\<lambda>i. bind (nth_err rand i) (\<lambda>u.
                                bind (nth_err sorted_proba i) (\<lambda>proba.
                                bind (nth_err proba (L ! i)) (\<lambda>p.
                                Inr (E ! i + (u - 1) * p
                                     + lambd * real_of_int (max (int (L ! i) - k_reg + 1) 0))))))
                is) (\<lambda>E'.
        Inr (Array1 E'))))))"

text \<open>
  The steps of \<open>_RAPS_SET\<close> for one example, on its sorted probabilities and their
  cumulative mass. The list \<open>penal_proba\<close> the source also builds is never
  read and cannot raise; it is left out.
  \<^verbatim>\<open>
  penal_cum_proba = [
      sorted_cum_mass[i]
      + lambd * np.maximum(np.arange(1, len(sorted_cum_mass[i]) + 1) - k_reg, 0)
      for i in range(pred_len)]
  L = [len(np.where(penal_cum_proba[i] <= tau)[-1]) + 1 for i in range(pred_len)]
  proba_excess = [
      -sorted_cum_mass[i, L[i] - 1]
      - lambd * np.maximum(L[i] - k_reg, 0)
      + sorted_proba[i, L[i] - 1]
      for i in range(pred_len)]
  v = [(tau - proba_excess[i]) / sorted_proba[i, L[i] - 1]
       if (L[i] - 1) >= 0 else np.inf
       for i in range(pred_len)]
  \<close>
\<close>

definition RAPS_penal_cum_proba :: "real \<Rightarrow> int \<Rightarrow> real list \<Rightarrow> real list" where
  "RAPS_penal_cum_proba lambd k_reg cum =
     map2 (\<lambda>c j. c + lambd * real_of_int (max (int j - k_reg) 0)) cum [1..<length cum + 1]"

definition RAPS_L :: "real \<Rightarrow> int \<Rightarrow> real \<Rightarrow> real list \<Rightarrow> int" where
  "RAPS_L lambd k_reg tau cum =
     int (length (filter (\<lambda>x. x \<le> tau) (RAPS_penal_cum_proba lambd k_reg cum))) + 1"

definition RAPS_proba_excess :: "real \<Rightarrow> int \<Rightarrow> real list \<Rightarrow> real list \<Rightarrow> int \<Rightarrow> error + real" where
  "RAPS_proba_excess lambd k_reg cum proba L =
     bind (py_index cum (L - 1)) (\<lambda>c.
     bind (py_index proba (L - 1)) (\<lambda>p.
     Inr (- c - lambd * real_of_int (max (L - k_reg) 0) + p)))"

definition RAPS_v :: "real \<Rightarrow> real \<Rightarrow> real list \<Rightarrow> int \<Rightarrow> error + npfloat" where
  "RAPS_v tau proba_excess proba L =
     (if L - 1 \<ge> 0
      then bind (py_index proba (L - 1)) (\<lambda>p. Inr (np_divide (tau - proba_excess) p))
      else Inr PosInf)"

text \<open>
  \<^verbatim>\<open>
  for i in range(pred_len):
      if v[i] <= u[i]:
          cut_i = L[i] - 1
      else:
          cut_i = L[i]
      if cut_i < 0:
          prediction_sets.append([])
      else:
          prediction_sets.append(list(idx_class_pred_ranking[i, :cut_i]))
  \<close>
\<close>

definition RAPS_cut :: "npfloat \<Rightarrow> real \<Rightarrow> int \<Rightarrow> int" where
  "RAPS_cut v u L = (if np_le v u then L - 1 else L)"

definition RAPS_prediction_set :: "nat list \<Rightarrow> int \<Rightarrow> nat list" where
  "RAPS_prediction_set ranking cut_i = (if cut_i < 0 then [] else take (nat cut_i) ranking)"

text \<open>
  \<^verbatim>\<open>
  def _RAPS_SET(Y_pred, scores_quantiles):
      pred_len = len(Y_pred)
      u = np.random.uniform(size=pred_len)
      tau = scores_quantiles
      idx_class_pred_ranking = np.argsort(-Y_pred, axis=1)
      sorted_proba = -np.sort(-Y_pred, axis=1)
      sorted_cum_mass = sorted_proba.cumsum(axis=1)
      ...
      return (prediction_sets,)
  \<close>
  \<open>RAPS_SET_locals\<close> runs the body and returns the final values of the local
  variables \<open>L\<close>, \<open>proba_excess\<close>, \<open>v\<close>, the \<open>cut_i\<close> of the loop and
  \<open>prediction_sets\<close>; \<open>RAPS_SET\<close> returns the last of them. The threshold \<open>tau\<close> is a
  number.
\<close>

definition RAPS_SET_locals ::
  "real \<Rightarrow> int \<Rightarrow> generator \<Rightarrow> real ndarray \<Rightarrow> real
     \<Rightarrow> error + (int list \<times> real list \<times> npfloat list \<times> int list \<times> nat list list)" where
  "RAPS_SET_locals lambd k_reg uniform Y_pred tau =
     bind (np_len Y_pred) (\<lambda>pred_len.
     let u = uniform pred_len in
     bind (rows_axis1 Y_pred) (\<lambda>rows.
     let idx_class_pred_ranking = map argsort_neg rows;
         sorted_proba = map sort_neg rows;
         sorted_cum_mass = map cumsum sorted_proba;
         is = [0..<pred_len];
         L = map (\<lambda>i. RAPS_L lambd k_reg tau (sorted_cum_mass ! i)) is
     in
     bind (traverse (\<lambda>i. RAPS_proba_excess lambd k_reg (sorted_cum_mass ! i)
                           (sorted_proba ! i) (L ! i)) is) (\<lambda>proba_excess.
     bind (traverse (\<lambda>i. RAPS_v tau (proba_excess ! i) (sorted_proba ! i) (L ! i)) is) (\<lambda>v.
     bind (traverse (\<lambda>i. bind (nth_err u i) (\<lambda>u_i. Inr (RAPS_cut (v ! i) u_i (L ! i)))) is)
       (\<lambda>cut.
     Inr (L, proba_excess, v, cut,
          map (\<lambda>i. RAPS_prediction_set (idx_class_pred_ranking ! i) (cut ! i)) is))))))"

definition RAPS_SET ::
  "real \<Rightarrow> int \<Rightarrow> generator \<Rightarrow> real ndarray \<Rightarrow> real \<Rightarrow> error + nat list list" where
  "RAPS_SET lambd k_reg uniform Y_pred tau =
     bind (RAPS_SET_locals lambd k_reg uniform Y_pred tau)
       (\<lambda>(L, proba_excess, v, cut, prediction_sets). Inr prediction_sets)"

section \<open>Properties\<close>

lemma bind_Inr [simp]: "bind (Inr x) f = f x"
  by (simp add: bind_def)

lemma bind_Inl [simp]: "bind (Inl e) f = Inl e"
  by (simp add: bind_def)

lemma stretch_same: "length xs = n \<Longrightarrow> stretch n xs = xs"
  by (simp add: stretch_def)

lemma map2_replicate_right:
  "map2 f xs (replicate (length xs) y) = map (\<lambda>x. f x y) xs"
  by (induction xs) auto

lemma stretch_singleton: "stretch n [y] = replicate n y"
  by (auto simp: stretch_def)

lemma bdim_one: "bdim n (Suc 0) = Some n"
  by (simp add: bdim_def)

lemma map2_stretch_scalar:
  assumes "length r = m"
  shows "map2 f (stretch m r) (stretch m [t]) = map (\<lambda>x. f x t) r"
  using assms map2_replicate_right [of f r t]
  by (simp only: stretch_same stretch_singleton)

lemma broadcast_scalar:
  assumes "wf_ndarray a"
  shows "broadcast f a (Array0 t) = Inr (map_ndarray (\<lambda>x. f x t) a)"
proof (cases a)
  case (Array0 x)
  then show ?thesis
    by (simp add: broadcast_def bdim_def squeeze_def stretch_def)
next
  case (Array1 xs)
  have "map2 f (stretch (length xs) xs) (stretch (length xs) [t]) = map (\<lambda>x. f x t) xs"
    by (rule map2_stretch_scalar) simp
  then show ?thesis using Array1
    by (simp add: broadcast_def bdim_one squeeze_def stretch_same)
next
  case (Array2 m rs)
  with assms have rs: "\<forall>r \<in> set rs. length r = m"
    by (simp add: list_all_iff)
  have "map2 (\<lambda>r s. map2 f (stretch m r) (stretch m s)) rs (replicate (length rs) [t])
        = map (\<lambda>r. map2 f (stretch m r) (stretch m [t])) rs"
    by (rule map2_replicate_right)
  also have "\<dots> = map (map (\<lambda>x. f x t)) rs"
  proof (rule map_cong [OF refl])
    fix r assume "r \<in> set rs"
    with rs have "length r = m" by blast
    then show "map2 f (stretch m r) (stretch m [t]) = map (\<lambda>x. f x t) r"
      by (rule map2_stretch_scalar)
  qed
  finally have "map2 (\<lambda>r s. map2 f (stretch m r) (stretch m s))
                  (stretch (length rs) rs) (stretch (length rs) [[t]])
                = map (map (\<lambda>x. f x t)) rs"
    by (simp only: stretch_same stretch_singleton)
  then show ?thesis using Array2
    by (simp add: broadcast_def bdim_one squeeze_def)
qed

lemma flat_map_ndarray: "flat (map_ndarray f a) = map f (flat a)"
  by (cases a) (simp_all add: map_concat)

lemma shape_map_ndarray: "shape (map_ndarray f a) = shape a"
  by (cases a) simp_all



lemma bdim_same: "bdim n n = Some n"
  by (simp add: bdim_def)

lemma broadcast_vectors:
  assumes "length xs = length ys"
  shows "broadcast f (Array1 xs) (Array1 ys) = Inr (Array1 (map2 f xs ys))"
  using assms by (simp add: broadcast_def bdim_same squeeze_def stretch_same)

lemma np_column_nth:
  "j < m \<Longrightarrow> np_column (Array2 m rs) j = Inr (Array1 (map (\<lambda>r. r ! j) rs))"
  by simp

lemma map2_nth_conv:
  "length xs = length ys \<Longrightarrow> map2 f xs ys = map (\<lambda>i. f (xs ! i) (ys ! i)) [0..<length xs]"
  by (rule nth_equalityI) auto

lemma CQR_SCORE_value:
  assumes chk: "supported_types_check [NdArray, NdArray]"
      and len: "length ts = length rs"
  shows "CQR_SCORE supported_types_check (Array2 2 rs) (Array1 ts)
         = Inr (Array1 (map2 (\<lambda>r t. max (r ! 0 - t) (t - r ! 1)) rs ts))"
proof -
  have "map2 max (map2 (-) (map (\<lambda>r. r ! 0) rs) ts) (map2 (-) ts (map (\<lambda>r. r ! 1) rs))
        = map2 (\<lambda>r t. max (r ! 0 - t) (t - r ! 1)) rs ts"
    using len by (intro nth_equalityI) auto
  then show ?thesis
  using chk len
  by (simp add: CQR_SCORE_def shape_at_def np_subtract_def np_maximum_def broadcast_vectors)
qed

lemma CQR_INTERVAL_value:
  assumes chk: "supported_types_check [NdArray]"
  shows "CQR_INTERVAL supported_types_check (Array2 2 rs) (Array0 tau)
         = Inr (Array1 (map (\<lambda>r. r ! 0 - tau) rs), Array1 (map (\<lambda>r. r ! 1 + tau) rs))"
  using chk
  by (simp add: CQR_INTERVAL_def shape_at_def np_subtract_def np_add_def broadcast_scalar o_def)

text \<open>
  C8. On a two-column prediction \<open>(q_lo, q_hi)\<close> and a one-dimensional truth of the
  same length, \<open>CQR_SCORE\<close> returns \<open>max (q_lo - truth) (truth - q_hi)\<close> elementwise.
  Where \<open>q_lo \<le> q_hi\<close>, the score is 0 for a truth at \<open>q_lo\<close> or at \<open>q_hi\<close>,
  positive for a truth outside \<open>[q_lo, q_hi]\<close> and negative for a truth strictly
  inside. The score is at most \<open>tau\<close> exactly when the truth lies in the interval
  \<open>CQR_INTERVAL\<close> builds from the same prediction and \<open>tau\<close>.
\<close>

theorem CQR_SCORE_inverse_consistent:
  assumes chk2: "supported_types_check [NdArray, NdArray]"
      and chk1: "supported_types_check [NdArray]"
      and len: "length ts = length rs"
  shows "\<exists>s. CQR_SCORE supported_types_check (Array2 2 rs) (Array1 ts) = Inr (Array1 s)
           \<and> length s = length rs
           \<and> (\<forall>i < length rs.
                 s ! i = max (rs ! i ! 0 - ts ! i) (ts ! i - rs ! i ! 1)
               \<and> (rs ! i ! 0 \<le> rs ! i ! 1 \<longrightarrow>
                    (ts ! i = rs ! i ! 0 \<or> ts ! i = rs ! i ! 1 \<longrightarrow> s ! i = 0)
                  \<and> (ts ! i < rs ! i ! 0 \<or> rs ! i ! 1 < ts ! i \<longrightarrow> 0 < s ! i)
                  \<and> (rs ! i ! 0 < ts ! i \<and> ts ! i < rs ! i ! 1 \<longrightarrow> s ! i < 0))
               \<and> (\<forall>tau. \<exists>y_lo y_hi.
                     CQR_INTERVAL supported_types_check (Array2 2 rs) (Array0 tau)
                       = Inr (Array1 y_lo, Array1 y_hi)
                   \<and> (s ! i \<le> tau \<longleftrightarrow> y_lo ! i \<le> ts ! i \<and> ts ! i \<le> y_hi ! i)))"
proof -
  let ?s = "map2 (\<lambda>r t. max (r ! 0 - t) (t - r ! 1)) rs ts"
  have val: "CQR_SCORE supported_types_check (Array2 2 rs) (Array1 ts) = Inr (Array1 ?s)"
    using chk2 len by (rule CQR_SCORE_value)
  have nth: "?s ! i = max (rs ! i ! 0 - ts ! i) (ts ! i - rs ! i ! 1)" if "i < length rs" for i
    using that len by simp
  have itv: "CQR_INTERVAL supported_types_check (Array2 2 rs) (Array0 tau)
         = Inr (Array1 (map (\<lambda>r. r ! 0 - tau) rs), Array1 (map (\<lambda>r. r ! 1 + tau) rs))" for tau
    using chk1 by (rule CQR_INTERVAL_value)
  have "length ?s = length rs" using len by simp
  moreover have "\<forall>i < length rs.
                 ?s ! i = max (rs ! i ! 0 - ts ! i) (ts ! i - rs ! i ! 1)
               \<and> (rs ! i ! 0 \<le> rs ! i ! 1 \<longrightarrow>
                    (ts ! i = rs ! i ! 0 \<or> ts ! i = rs ! i ! 1 \<longrightarrow> ?s ! i = 0)
                  \<and> (ts ! i < rs ! i ! 0 \<or> rs ! i ! 1 < ts ! i \<longrightarrow> 0 < ?s ! i)
                  \<and> (rs ! i ! 0 < ts ! i \<and> ts ! i < rs ! i ! 1 \<longrightarrow> ?s ! i < 0))
               \<and> (\<forall>tau. \<exists>y_lo y_hi.
                     CQR_INTERVAL supported_types_check (Array2 2 rs) (Array0 tau)
                       = Inr (Array1 y_lo, Array1 y_hi)
                   \<and> (?s ! i \<le> tau \<longleftrightarrow> y_lo ! i \<le> ts ! i \<and> ts ! i \<le> y_hi ! i))"
  proof (intro allI impI)
    fix i assume i: "i < length rs"
    have "\<exists>y_lo y_hi.
                     CQR_INTERVAL supported_types_check (Array2 2 rs) (Array0 tau)
                       = Inr (Array1 y_lo, Array1 y_hi)
                   \<and> (?s ! i \<le> tau \<longleftrightarrow> y_lo ! i \<le> ts ! i \<and> ts ! i \<le> y_hi ! i)" for tau
      unfolding itv nth [OF i] using i by auto
    then show "?s ! i = max (rs ! i ! 0 - ts ! i) (ts ! i - rs ! i ! 1)
               \<and> (rs ! i ! 0 \<le> rs ! i ! 1 \<longrightarrow>
                    (ts ! i = rs ! i ! 0 \<or> ts ! i = rs ! i ! 1 \<longrightarrow> ?s ! i = 0)
                  \<and> (ts ! i < rs ! i ! 0 \<or> rs ! i ! 1 < ts ! i \<longrightarrow> 0 < ?s ! i)
                  \<and> (rs ! i ! 0 < ts ! i \<and> ts ! i < rs ! i ! 1 \<longrightarrow> ?s ! i < 0))
               \<and> (\<forall>tau. \<exists>y_lo y_hi.
                     CQR_INTERVAL supported_types_check (Array2 2 rs) (Array0 tau)
                       = Inr (Array1 y_lo, Array1 y_hi)
                   \<and> (?s ! i \<le> tau \<longleftrightarrow> y_lo ! i \<le> ts ! i \<and> ts ! i \<le> y_hi ! i))"
      unfolding nth [OF i] by (auto simp: max_def)
  qed
  ultimately show ?thesis using val by blast
qed

theorem CQR_SCORE_inverse_consistent_witness:
  "\<exists>s. CQR_SCORE (\<lambda>cs. True) (Array2 2 [[1, 3], [1, 3], [1, 3], [1, 3]]) (Array1 [1, 3, 2, 5])
          = Inr (Array1 s)
      \<and> s ! 0 = 0 \<and> s ! 1 = 0 \<and> s ! 2 < 0 \<and> 0 < s ! 3"
proof -
  let ?rs = "[[1, 3], [1, 3], [1, 3], [1, 3::real]]" and ?ts = "[1, 3, 2, 5::real]"
  have l: "length ?ts = length ?rs" by simp
  note th = CQR_SCORE_inverse_consistent
              [where supported_types_check = "\<lambda>cs. True" and rs = ?rs and ts = ?ts,
               OF TrueI TrueI l]
  from th obtain s where
      s: "CQR_SCORE (\<lambda>cs. True) (Array2 2 ?rs) (Array1 ?ts) = Inr (Array1 s)"
    and el: "\<forall>i < length ?rs. s ! i = max (?rs ! i ! 0 - ?ts ! i) (?ts ! i - ?rs ! i ! 1)
               \<and> (?rs ! i ! 0 \<le> ?rs ! i ! 1 \<longrightarrow>
                    (?ts ! i = ?rs ! i ! 0 \<or> ?ts ! i = ?rs ! i ! 1 \<longrightarrow> s ! i = 0)
                  \<and> (?ts ! i < ?rs ! i ! 0 \<or> ?rs ! i ! 1 < ?ts ! i \<longrightarrow> 0 < s ! i)
                  \<and> (?rs ! i ! 0 < ?ts ! i \<and> ?ts ! i < ?rs ! i ! 1 \<longrightarrow> s ! i < 0))
               \<and> (\<forall>tau. \<exists>y_lo y_hi.
                     CQR_INTERVAL (\<lambda>cs. True) (Array2 2 ?rs) (Array0 tau)
                       = Inr (Array1 y_lo, Array1 y_hi)
                   \<and> (s ! i \<le> tau \<longleftrightarrow> y_lo ! i \<le> ?ts ! i \<and> ?ts ! i \<le> y_hi ! i))"
    by blast
  have "s ! 0 = 0" using el [rule_format, of 0] by simp
  moreover have "s ! 1 = 0" using el [rule_format, of 1] by simp
  moreover have "s ! 2 < 0" using el [rule_format, of 2] by simp
  moreover have "0 < s ! 3" using el [rule_format, of 3] by simp
  ultimately show ?thesis using s by blast
qed

lemma SCALED_MAD_value:
  assumes chk: "supported_types_check [NdArray, NdArray]"
      and len: "length ts = length rs"
  shows "SCALED_MAD supported_types_check EPSILON (Array2 2 rs) (Array1 ts)
         = Inr (Array1 (map2 (\<lambda>r t. np_divide \<bar>r ! 0 - t\<bar> (r ! 1 + EPSILON)) rs ts))"
proof -
  have "map2 np_divide (map abs (map2 (-) (map (\<lambda>r. r ! 0) rs) ts))
          (map (\<lambda>x. x + EPSILON) (map (\<lambda>r. r ! 1) rs))
        = map2 (\<lambda>r t. np_divide \<bar>r ! 0 - t\<bar> (r ! 1 + EPSILON)) rs ts"
    using len by (intro nth_equalityI) auto
  then show ?thesis
    using chk len
    by (simp add: SCALED_MAD_def MAD_def shape_at_def np_subtract_def np_add_def
        np_absolute_def np_true_divide_def broadcast_vectors broadcast_scalar)
qed

lemma SCALED_MAD_fails_iff:
  assumes chk: "supported_types_check [NdArray, NdArray]"
      and sY: "shape Y_pred = n # sY" and sy: "shape y_true = n # sy"
  shows "isl (SCALED_MAD supported_types_check EPSILON Y_pred y_true) \<longleftrightarrow> sY \<noteq> [2] \<or> sy \<noteq> []"
proof (cases Y_pred)
  case (Array0 x)
  with sY show ?thesis by simp
next
  case Y1: (Array1 xs)
  with sY chk show ?thesis by (simp add: SCALED_MAD_def shape_at_def)
next
  case Y2: (Array2 m rs)
  with sY have n: "length rs = n" and m: "sY = [m]" by simp_all
  show ?thesis
  proof (cases "m = 2")
    case False
    then show ?thesis using Y2 chk m by (simp add: SCALED_MAD_def shape_at_def)
  next
    case True
    show ?thesis
    proof (cases y_true)
      case (Array0 x)
      with sy show ?thesis by simp
    next
      case (Array1 ts)
      with sy n have "length ts = length rs" and e: "sy = []" by simp_all
      with chk have "SCALED_MAD supported_types_check EPSILON (Array2 2 rs) (Array1 ts)
         = Inr (Array1 (map2 (\<lambda>r t. np_divide \<bar>r ! 0 - t\<bar> (r ! 1 + EPSILON)) rs ts))"
        by (intro SCALED_MAD_value)
      then show ?thesis using Y2 Array1 True m e by simp
    next
      case (Array2 k us)
      with sy have "sy = [k]" by simp
      then show ?thesis using Y2 Array2 chk True
        by (simp add: SCALED_MAD_def shape_at_def)
    qed
  qed
qed




lemma barber_row:
  assumes "length r = length ws + 1"
  shows "(map f ws @ drop (length ws) r)[length ws := y] = map f ws @ [y]"
proof -
  from assms obtain x where "drop (length ws) r = [x]"
    by (cases "drop (length ws) r") (auto simp: drop_eq_Nil dest: arg_cong [where f = length])
  then show ?thesis by (simp add: list_update_append)
qed

lemma barber_assign_step:
  assumes k: "k < length w" and len: "length (w ! k) = length ws + 1"
  shows "barber_assign ws w k
         = w[k := map (\<lambda>x. np_divide x (sum_list ws + 1)) ws @ [np_divide 1 (sum_list ws + 1)]]"
  using barber_row [OF len] by (simp add: barber_assign_def Let_def)

lemma foldl_barber_assign:
  assumes "k \<le> length w" and "\<forall>r \<in> set w. length r = length ws + 1"
  shows "foldl (barber_assign ws) w [0..<k]
         = replicate k (map (\<lambda>x. np_divide x (sum_list ws + 1)) ws @ [np_divide 1 (sum_list ws + 1)])
           @ drop k w"
  using assms
proof (induction k)
  case 0
  then show ?case by simp
next
  case (Suc k)
  let ?R = "map (\<lambda>x. np_divide x (sum_list ws + 1)) ws @ [np_divide 1 (sum_list ws + 1)]"
  let ?w = "replicate k ?R @ drop k w"
  from Suc.prems have k: "k < length w" by simp
  have IH: "foldl (barber_assign ws) w [0..<k] = ?w"
    using Suc by simp
  have lw: "k < length ?w" using k by simp
  have "?w ! k = w ! k" using k by (simp add: nth_append)
  with Suc.prems k have "length (?w ! k) = length ws + 1" by simp
  from barber_assign_step [OF lw this]
  have "barber_assign ws ?w k = ?w[k := ?R]" .
  also have "\<dots> = replicate k ?R @ (drop k w)[0 := ?R]"
    by (simp add: list_update_append)
  also have "(drop k w)[0 := ?R] = ?R # drop (Suc k) w"
    using k by (simp add: Cons_nth_drop_Suc [symmetric])
  also have "replicate k ?R @ ?R # drop (Suc k) w = replicate (Suc k) ?R @ drop (Suc k) w"
    by (simp add: replicate_append_same)
  finally show ?case using IH by simp
qed

lemma sum_list_divide: "sum_list (map (\<lambda>w. w / c) ws) = sum_list ws / (c::real)"
  by (induction ws) (simp_all add: add_divide_distrib)

text \<open>
  C6. For every array \<open>X\<close> of \<open>m\<close> test examples and every vector of nonnegative
  calibration weights, \<open>barber_weights\<close> returns a matrix with \<open>m\<close> rows and one column
  more than there are weights; every row holds the weights divided by their sum plus
  one, then \<open>1 / (sum + 1)\<close>, all finite, and sums to 1 (in exact arithmetic).
\<close>

theorem barber_weights_rows:
  assumes nonneg: "\<forall>w \<in> set weights_calib. 0 \<le> w" and X: "np_len X = Inr m"
  shows "\<exists>row. barber_weights X weights_calib
                 = Inr (Array2 (length weights_calib + 1) (replicate m (map Finite row)))
             \<and> row = map (\<lambda>w. w / (sum_list weights_calib + 1)) weights_calib
                       @ [1 / (sum_list weights_calib + 1)]
             \<and> length row = length weights_calib + 1
             \<and> sum_list row = 1"
proof -
  let ?s = "sum_list weights_calib"
  let ?row = "map (\<lambda>w. w / (?s + 1)) weights_calib @ [1 / (?s + 1)]"
  from nonneg have "0 \<le> ?s" by (simp add: sum_list_nonneg)
  then have pos: "?s + 1 \<noteq> 0" by simp
  have R: "map (\<lambda>x. np_divide x (?s + 1)) weights_calib @ [np_divide 1 (?s + 1)]
           = map Finite ?row"
    using pos by (simp add: np_divide_def)
  let ?z = "replicate m (replicate (length weights_calib + 1) (Finite 0))"
  have "foldl (barber_assign weights_calib) ?z [0..<m]
        = replicate m (map (\<lambda>x. np_divide x (?s + 1)) weights_calib @ [np_divide 1 (?s + 1)])
          @ drop m ?z"
    by (rule foldl_barber_assign) simp_all
  then have "foldl (barber_assign weights_calib) ?z [0..<m] = replicate m (map Finite ?row)"
    by (simp only: R) simp
  then have "barber_weights X weights_calib
             = Inr (Array2 (length weights_calib + 1) (replicate m (map Finite ?row)))"
    using X by (simp add: barber_weights_def Let_def)
  moreover have "sum_list ?row = 1"
    using pos by (simp add: sum_list_divide add_divide_distrib [symmetric])
  ultimately show ?thesis by simp
qed

theorem barber_weights_rows_witness:
  "barber_weights (Array2 1 [[7::real], [8]]) [1, 2]
     = Inr (Array2 3 [[Finite (1/4), Finite (1/2), Finite (1/4)],
                      [Finite (1/4), Finite (1/2), Finite (1/4)]])"
proof -
  have "\<forall>w \<in> set [1, 2::real]. 0 \<le> w" by simp
  moreover have "np_len (Array2 1 [[7::real], [8]]) = Inr 2" by simp
  ultimately show ?thesis
    using barber_weights_rows [of "[1, 2]" "Array2 1 [[7::real], [8]]" 2]
    by (simp add: numeral_2_eq_2)
qed

lemma quantile_loop_no_check:
  "Call_check_alpha_calib a n \<notin> set (fst (quantile_loop quantile rs alpha ws acc))"
proof (induction ws arbitrary: acc)
  case Nil
  then show ?case by simp
next
  case (Cons w ws)
  show ?case
  proof (cases "concatenate_inf rs")
    case (Inl e)
    then show ?thesis by simp
  next
    case l: (Inr l)
    show ?thesis
    proof (cases "quantile l (1 - alpha) w")
      case (Inl e)
      then show ?thesis using l by simp
    next
      case (Inr q)
      then show ?thesis using l Cons.IH [of "acc @ [q]"]
        by (auto split: prod.splits)
    qed
  qed
qed

text \<open>
  C5. \<open>calibrate\<close> checks its preconditions before any quantile is computed. On a
  calibrator without stored residuals (one \<open>fit\<close> was never called on) it raises the
  sequencing error and calls neither \<open>check_alpha_calib\<close> nor \<open>quantile\<close>. On a
  calibrator with residuals, the first call it makes is
  \<open>check_alpha_calib alpha len_calib\<close>; when that check raises, the call ends with
  this exception and \<open>quantile\<close> is never called.
\<close>

theorem calibrate_checks_first:
  "(residuals self = None \<longrightarrow>
      calibrate check_alpha_calib quantile self alpha y_pred weights
        = ([], Inl (RuntimeError ''Run `fit` method before calling `calibrate`.'')))
   \<and> calibrate check_alpha_calib quantile (BaseCalibrator_init score_f set_f weight_f)
        alpha y_pred weights
        = ([], Inl (RuntimeError ''Run `fit` method before calling `calibrate`.''))
   \<and> (residuals self \<noteq> None \<longrightarrow>
        (\<exists>tr r. calibrate check_alpha_calib quantile self alpha y_pred weights
                  = (Call_check_alpha_calib alpha (len_calib self) # tr, r)
               \<and> (\<forall>a n. Call_check_alpha_calib a n \<notin> set tr)))
   \<and> (residuals self \<noteq> None \<and> check_alpha_calib alpha (len_calib self) = Some e \<longrightarrow>
        calibrate check_alpha_calib quantile self alpha y_pred weights
          = ([Call_check_alpha_calib alpha (len_calib self)], Inl e))"
proof (intro conjI impI)
  show "calibrate check_alpha_calib quantile (BaseCalibrator_init score_f set_f weight_f)
        alpha y_pred weights
        = ([], Inl (RuntimeError ''Run `fit` method before calling `calibrate`.''))"
    by (simp add: calibrate_def BaseCalibrator_init_def)
next
  assume "residuals self = None"
  then show "calibrate check_alpha_calib quantile self alpha y_pred weights
        = ([], Inl (RuntimeError ''Run `fit` method before calling `calibrate`.''))"
    by (simp add: calibrate_def)
next
  assume "residuals self \<noteq> None \<and> check_alpha_calib alpha (len_calib self) = Some e"
  then show "calibrate check_alpha_calib quantile self alpha y_pred weights
          = ([Call_check_alpha_calib alpha (len_calib self)], Inl e)"
    by (auto simp: calibrate_def)
next
  assume "residuals self \<noteq> None"
  then obtain rs where rs: "residuals self = Some rs" by auto
  let ?ws = "case weights of None \<Rightarrow> [None] | Some ws \<Rightarrow> map Some ws"
  obtain tr q where q: "quantile_loop quantile rs alpha ?ws [] = (tr, q)"
    by (cases "quantile_loop quantile rs alpha ?ws []")
  have tr: "Call_check_alpha_calib a n \<notin> set tr" for a n
    using quantile_loop_no_check [of a n quantile rs alpha ?ws "[]"] q by simp
  show "\<exists>tr r. calibrate check_alpha_calib quantile self alpha y_pred weights
                  = (Call_check_alpha_calib alpha (len_calib self) # tr, r)
               \<and> (\<forall>a n. Call_check_alpha_calib a n \<notin> set tr)"
  proof (cases "check_alpha_calib alpha (len_calib self)")
    case (Some e)
    then show ?thesis using rs by (simp add: calibrate_def)
  next
    case None
    then show ?thesis using rs q tr
      by (cases q) (simp_all add: calibrate_def Let_def)
  qed
qed

theorem calibrate_checks_first_witness:
  "calibrate (\<lambda>a n. if a < 1 / (real n + 1) then Some ValueError else None)
       (\<lambda>xs p (w :: unit option). Inr (hd xs))
       (BaseCalibrator_init (\<lambda>(p :: real ndarray) t. Inr t) (\<lambda>p qs. Inr qs) (None :: unit option)
          \<lparr>residuals := Some (Array1 [1, 2, 3]), len_calib := 3\<rparr>)
       (1/10) (Array1 [10]) None
     = ([Call_check_alpha_calib (1/10) 3], Inl ValueError)"
proof -
  let ?self = "BaseCalibrator_init (\<lambda>(p :: real ndarray) t. Inr t) (\<lambda>p qs. Inr qs)
                 (None :: unit option)
                 \<lparr>residuals := Some (Array1 [1, 2, 3]), len_calib := 3\<rparr>"
  let ?check = "\<lambda>a n. if a < 1 / (real n + 1) then Some ValueError else None"
  have pre: "residuals ?self \<noteq> None \<and> ?check (1/10) (len_calib ?self) = Some ValueError"
    by (simp add: BaseCalibrator_init_def)
  have len: "len_calib ?self = 3"
    by (simp add: BaseCalibrator_init_def)
  note th = calibrate_checks_first
              [where self = ?self and check_alpha_calib = ?check and alpha = "1/10"
                 and e = ValueError and weights = None and y_pred = "Array1 [10]"
                 and quantile = "\<lambda>xs p (w :: unit option). Inr (hd xs)",
               THEN conjunct2, THEN conjunct2, THEN conjunct2, rule_format, OF pre]
  show ?thesis using th unfolding len .
qed

lemma np_reshape_column:
  "np_reshape (Array1 ys) (length ys) (Suc 0) = Inr (Array2 (Suc 0) (map (\<lambda>y. [y]) ys))"
proof -
  have "map (\<lambda>i. take (Suc 0) (drop (i * Suc 0) ys)) [0..<length ys] = map (\<lambda>y. [y]) ys"
    by (rule nth_equalityI) (simp_all add: take_Suc_conv_app_nth)
  then show ?thesis by (simp add: np_reshape_def)
qed

lemma np_reshape_row:
  "np_reshape (Array1 rs) (Suc 0) (length rs) = Inr (Array2 (length rs) [rs])"
  by (simp add: np_reshape_def)

lemma map2_replicate_left:
  "map2 f (replicate (length ys) x) ys = map (f x) ys"
  by (induction ys) auto

lemma stretch_replicate_one: "stretch n [x] = replicate n x"
  by (auto simp: stretch_def)

lemma bdim_one_left: "bdim (Suc 0) n = Some n"
  by (auto simp: bdim_def)

lemma broadcast_column_row:
  "broadcast f (Array2 (Suc 0) (map (\<lambda>y. [y]) ys)) (Array2 (length rs) [rs])
   = Inr (Array2 (length rs) (map (\<lambda>y. map (f y) rs) ys))"
proof -
  have "map2 (\<lambda>r s. map2 f (stretch (length rs) r) (stretch (length rs) s))
          (map (\<lambda>y. [y]) ys) (replicate (length ys) rs)
        = map (\<lambda>y. map (f y) rs) ys"
    by (rule nth_equalityI)
       (simp_all add: stretch_replicate_one stretch_same map2_replicate_left)
  then show ?thesis
    by (simp add: broadcast_def bdim_one bdim_one_left squeeze_def stretch_same
        stretch_replicate_one)
qed

lemma CONSTANT_INTERVAL_column_row:
  assumes "chk [NdArray]"
  shows "CONSTANT_INTERVAL chk (Array2 (Suc 0) (map (\<lambda>y. [y]) ys)) (Array2 (length rs) [rs])
         = Inr (Array2 (length rs) (map (\<lambda>y. map (\<lambda>r. y - r) rs) ys),
                Array2 (length rs) (map (\<lambda>y. map (\<lambda>r. y + r) rs) ys))"
  using assms
  by (simp add: CONSTANT_INTERVAL_def np_subtract_def np_add_def broadcast_column_row)

lemma spec_fold_okD:
  assumes "spec_fold_ok self X n p"
  obtains ys rs c where "snd p X = Some (Array1 ys)" "length ys = n"
    "map_of (kfold_calibrators_dict self) (fst p) = Some (Some c)"
    "residuals c = Some (Array1 rs)"
  using assms
  by (auto simp: spec_fold_ok_def split: option.splits ndarray.splits)

lemma cv_iteration:
  assumes chk: "chk [NdArray]" and ok: "spec_fold_ok self X n (k, predict)"
  obtains ys rs where "predict X = Some (Array1 ys)" "length ys = n"
    "spec_fold_residuals self k = rs"
    "cv_loop chk format self X ((k, predict) # items) (c_lo, c_hi)
     = (case (c_lo, c_hi) of
          (Some lo, Some hi) \<Rightarrow>
             bind (np_concatenate1 lo (Array2 (length rs) (map (\<lambda>y. map (\<lambda>r. y - r) rs) ys)))
               (\<lambda>lo'. bind (np_concatenate1 hi (Array2 (length rs) (map (\<lambda>y. map (\<lambda>r. y + r) rs) ys)))
               (\<lambda>hi'. cv_loop chk format self X items (Some lo', Some hi')))
        | _ \<Rightarrow> cv_loop chk format self X items
                 (Some (Array2 (length rs) (map (\<lambda>y. map (\<lambda>r. y - r) rs) ys)),
                  Some (Array2 (length rs) (map (\<lambda>y. map (\<lambda>r. y + r) rs) ys))))"
proof -
  from ok obtain ys rs c where p: "predict X = Some (Array1 ys)" and n: "length ys = n"
    and c: "map_of (kfold_calibrators_dict self) k = Some (Some c)"
    and r: "residuals c = Some (Array1 rs)"
    by (auto elim: spec_fold_okD)
  have res: "spec_fold_residuals self k = rs"
    using c r by (simp add: spec_fold_residuals_def)
  have "cv_loop chk format self X ((k, predict) # items) (c_lo, c_hi)
     = (case (c_lo, c_hi) of
          (Some lo, Some hi) \<Rightarrow>
             bind (np_concatenate1 lo (Array2 (length rs) (map (\<lambda>y. map (\<lambda>r. y - r) rs) ys)))
               (\<lambda>lo'. bind (np_concatenate1 hi (Array2 (length rs) (map (\<lambda>y. map (\<lambda>r. y + r) rs) ys)))
               (\<lambda>hi'. cv_loop chk format self X items (Some lo', Some hi')))
        | _ \<Rightarrow> cv_loop chk format self X items
                 (Some (Array2 (length rs) (map (\<lambda>y. map (\<lambda>r. y - r) rs) ys)),
                  Some (Array2 (length rs) (map (\<lambda>y. map (\<lambda>r. y + r) rs) ys))))"
    using p c r chk
    by (simp add: fold_residuals_def np_reshape_column np_reshape_row
        CONSTANT_INTERVAL_column_row)
  with p n res show thesis by (rule that)
qed

lemma spec_candidates_Nil [simp]: "spec_candidates f self X [] i = []"
  by (simp add: spec_candidates_def)

lemma spec_candidates_Cons:
  "spec_candidates f self X (p # ps) i
   = map (\<lambda>r. f (flat (the (snd p X)) ! i) r) (spec_fold_residuals self (fst p))
     @ spec_candidates f self X ps i"
  by (simp add: spec_candidates_def)

lemma cv_loop_acc:
  assumes chk: "chk [NdArray]"
      and ok: "\<forall>p \<in> set ps. spec_fold_ok self X n p"
      and lo: "length lo = n" and hi: "length hi = n"
  shows "\<exists>t. cv_loop chk format self X ps (Some (Array2 m lo), Some (Array2 m' hi))
         = Inr (Some (Array2 (m + t)
                        (map (\<lambda>i. lo ! i @ spec_candidates (\<lambda>y r. y - r) self X ps i) [0..<n])),
                Some (Array2 (m' + t)
                        (map (\<lambda>i. hi ! i @ spec_candidates (\<lambda>y r. y + r) self X ps i) [0..<n])))
          \<and> t = sum_list (map (\<lambda>p. length (spec_fold_residuals self (fst p))) ps)"
  using ok lo hi
proof (induction ps arbitrary: lo hi m m')
  case Nil
  then have "map ((!) lo) [0..<n] = lo" "map ((!) hi) [0..<n] = hi"
    using map_nth [of lo] map_nth [of hi] by simp_all
  then show ?case by simp
next
  case (Cons p ps)
  obtain k predict where p: "p = (k, predict)" by (cases p)
  from Cons.prems p have okp: "spec_fold_ok self X n (k, predict)" by simp
  from cv_iteration [where chk = chk and self = self and X = X and n = n and k = k
                       and predict = predict and format = format and items = ps
                       and c_lo = "Some (Array2 m lo)" and c_hi = "Some (Array2 m' hi)",
                     OF chk okp]
  obtain ys rs where y: "predict X = Some (Array1 ys)" and n: "length ys = n"
    and r: "spec_fold_residuals self k = rs"
    and step: "cv_loop chk format self X ((k, predict) # ps) (Some (Array2 m lo), Some (Array2 m' hi))
       = bind (np_concatenate1 (Array2 m lo)
                 (Array2 (length rs) (map (\<lambda>y. map (\<lambda>r. y - r) rs) ys)))
           (\<lambda>lo'. bind (np_concatenate1 (Array2 m' hi)
                          (Array2 (length rs) (map (\<lambda>y. map (\<lambda>r. y + r) rs) ys)))
           (\<lambda>hi'. cv_loop chk format self X ps (Some lo', Some hi')))"
    by auto
  let ?lo = "map2 (@) lo (map (\<lambda>y. map (\<lambda>r. y - r) rs) ys)"
  let ?hi = "map2 (@) hi (map (\<lambda>y. map (\<lambda>r. y + r) rs) ys)"
  have step': "cv_loop chk format self X (p # ps) (Some (Array2 m lo), Some (Array2 m' hi))
       = cv_loop chk format self X ps
           (Some (Array2 (m + length rs) ?lo), Some (Array2 (m' + length rs) ?hi))"
    using step p n Cons.prems by simp
  have len: "length ?lo = n" "length ?hi = n"
    using n Cons.prems by simp_all
  from Cons.prems have "\<forall>p \<in> set ps. spec_fold_ok self X n p" by simp
  from Cons.IH [OF this len, of "m + length rs" "m' + length rs"]
  obtain t where IH: "cv_loop chk format self X ps
           (Some (Array2 (m + length rs) ?lo), Some (Array2 (m' + length rs) ?hi))
         = Inr (Some (Array2 (m + length rs + t)
                        (map (\<lambda>i. ?lo ! i @ spec_candidates (\<lambda>y r. y - r) self X ps i) [0..<n])),
                Some (Array2 (m' + length rs + t)
                        (map (\<lambda>i. ?hi ! i @ spec_candidates (\<lambda>y r. y + r) self X ps i) [0..<n])))"
    and t: "t = sum_list (map (\<lambda>p. length (spec_fold_residuals self (fst p))) ps)"
    by blast
  have rows: "map (\<lambda>i. (map2 (@) xs (map (\<lambda>y. map (f y) rs) ys)) ! i @ spec_candidates f self X ps i) [0..<n]
        = map (\<lambda>i. xs ! i @ spec_candidates f self X (p # ps) i) [0..<n]"
    if "length xs = n" for xs and f :: "real \<Rightarrow> real \<Rightarrow> real"
    using that n y r p by (intro map_cong refl) (simp add: spec_candidates_Cons)
  have "cv_loop chk format self X (p # ps) (Some (Array2 m lo), Some (Array2 m' hi))
         = Inr (Some (Array2 (m + (length rs + t))
                        (map (\<lambda>i. lo ! i @ spec_candidates (\<lambda>y r. y - r) self X (p # ps) i) [0..<n])),
                Some (Array2 (m' + (length rs + t))
                        (map (\<lambda>i. hi ! i @ spec_candidates (\<lambda>y r. y + r) self X (p # ps) i) [0..<n])))"
    unfolding step' IH
    using rows [of lo "\<lambda>y r. y - r"] rows [of hi "\<lambda>y r. y + r"] Cons.prems
    by (simp add: add.assoc)
  moreover have "length rs + t
                 = sum_list (map (\<lambda>p. length (spec_fold_residuals self (fst p))) (p # ps))"
    using t r p by simp
  ultimately show ?case by blast
qed

lemma cv_loop_start:
  assumes chk: "chk [NdArray]"
      and ok: "\<forall>p \<in> set ps. spec_fold_ok self X n p"
      and ne: "ps \<noteq> []"
  shows "cv_loop chk format self X ps (None, None)
         = Inr (Some (Array2 (sum_list (map (\<lambda>p. length (spec_fold_residuals self (fst p))) ps))
                        (map (\<lambda>i. spec_candidates (\<lambda>y r. y - r) self X ps i) [0..<n])),
                Some (Array2 (sum_list (map (\<lambda>p. length (spec_fold_residuals self (fst p))) ps))
                        (map (\<lambda>i. spec_candidates (\<lambda>y r. y + r) self X ps i) [0..<n])))"
proof -
  from ne obtain k predict ps' where ps: "ps = (k, predict) # ps'"
    by (cases ps) auto
  with ok have okp: "spec_fold_ok self X n (k, predict)"
    and ok': "\<forall>p \<in> set ps'. spec_fold_ok self X n p" by simp_all
  from cv_iteration [where chk = chk and self = self and X = X and n = n and k = k
                       and predict = predict and format = format and items = ps'
                       and c_lo = None and c_hi = None, OF chk okp]
  obtain ys rs where y: "predict X = Some (Array1 ys)" and n: "length ys = n"
    and r: "spec_fold_residuals self k = rs"
    and step: "cv_loop chk format self X ((k, predict) # ps') (None, None)
       = cv_loop chk format self X ps'
           (Some (Array2 (length rs) (map (\<lambda>y. map (\<lambda>r. y - r) rs) ys)),
            Some (Array2 (length rs) (map (\<lambda>y. map (\<lambda>r. y + r) rs) ys)))"
    by auto
  let ?lo = "map (\<lambda>y. map (\<lambda>r. y - r) rs) ys" and ?hi = "map (\<lambda>y. map (\<lambda>r. y + r) rs) ys"
  have len: "length ?lo = n" "length ?hi = n" using n by simp_all
  from cv_loop_acc [where chk = chk and format = format and m = "length rs"
                      and m' = "length rs", OF chk ok' len]
  obtain t where acc: "cv_loop chk format self X ps' (Some (Array2 (length rs) ?lo), Some (Array2 (length rs) ?hi))
         = Inr (Some (Array2 (length rs + t)
                        (map (\<lambda>i. ?lo ! i @ spec_candidates (\<lambda>y r. y - r) self X ps' i) [0..<n])),
                Some (Array2 (length rs + t)
                        (map (\<lambda>i. ?hi ! i @ spec_candidates (\<lambda>y r. y + r) self X ps' i) [0..<n])))"
    and t: "t = sum_list (map (\<lambda>p. length (spec_fold_residuals self (fst p))) ps')"
    by blast
  have rows: "map (\<lambda>i. map (\<lambda>y. map (f y) rs) ys ! i @ spec_candidates f self X ps' i) [0..<n]
        = map (\<lambda>i. spec_candidates f self X ps i) [0..<n]" for f :: "real \<Rightarrow> real \<Rightarrow> real"
    using n y r ps by (intro map_cong refl) (simp add: spec_candidates_Cons)
  have tot: "length rs + t = sum_list (map (\<lambda>p. length (spec_fold_residuals self (fst p))) ps)"
    using t r ps by simp
  show ?thesis
    using step acc rows [of "\<lambda>y r. y - r"] rows [of "\<lambda>y r. y + r"] tot ps by simp
qed


lemma scenario_residuals:
  "residuals (fst (fit (BaseCalibrator_init (MAD (\<lambda>cs. True)) set_f weight_f)
                     (Array1 ts) (Array1 [0, 0])))
   = Some (Array1 (map abs (map2 (-) [0, 0] ts)))" if "length ts = 2"
  using that
  by (simp add: fit_def BaseCalibrator_init_def MAD_def np_subtract_def np_absolute_def
      broadcast_vectors split: sum.splits)


lemma scenario_loop:
  "cv_loop (\<lambda>cs. True) (\<lambda>k :: nat. [])
     \<lparr> kfold_calibrators_dict =
         [(0, Some (fst (fit (BaseCalibrator_init (MAD (\<lambda>cs. True))
                               (\<lambda>(p :: real ndarray) (qs :: real list). Inr ()) (None :: unit option))
                          (Array1 [1, 2]) (Array1 [0, 0])))),
          (1, Some (fst (fit (BaseCalibrator_init (MAD (\<lambda>cs. True))
                               (\<lambda>(p :: real ndarray) (qs :: real list). Inr ()) (None :: unit option))
                          (Array1 [3, 4]) (Array1 [0, 0]))))] \<rparr>
     () [(0, \<lambda>X. Some (Array1 [10])), (1, \<lambda>X. Some (Array1 [10]))] (None, None)
   = Inr (Some (Array2 4 [[9, 8, 7, 6]]), Some (Array2 4 [[11, 12, 13, 14]]))"
  by (simp add: fold_residuals_def scenario_residuals np_reshape_def CONSTANT_INTERVAL_def
      np_subtract_def np_add_def broadcast_def bdim_def stretch_def squeeze_def)


lemma check_calibrators_iff:
  "check_calibrators format d \<noteq> None \<longleftrightarrow> None \<in> snd ` set d"
  by (induction format d rule: check_calibrators.induct) auto

text \<open>
  C2, on an empty mapping: the constructor only tests
  the mapping for \<open>None\<close> and then its entries, of which an empty mapping has none,
  so construction succeeds.
\<close>

theorem CvPlusCalibrator_init_empty_counterexample:
  "CvPlusCalibrator_init (\<lambda>k :: nat. [])
     (Some ([] :: (nat \<times> (real ndarray, real, unit, unit) BaseCalibrator option) list))
   = Inr \<lparr> kfold_calibrators_dict = [] \<rparr>"
  by (simp add: CvPlusCalibrator_init_def)

text \<open>
  C2. Construction of a \<open>CvPlusCalibrator\<close> raises exactly when the fold
  mapping is absent or some fold identifier is mapped to an absent calibrator; for
  every mapping all of whose entries are present, the empty mapping included, it
  succeeds and stores the mapping.
\<close>

theorem CvPlusCalibrator_init_fails_iff:
  "(isl (CvPlusCalibrator_init format kfold_calibrators)
      \<longleftrightarrow> kfold_calibrators = None
          \<or> (\<exists>d. kfold_calibrators = Some d \<and> None \<in> snd ` set d))
   \<and> (\<forall>d. kfold_calibrators = Some d \<and> None \<notin> snd ` set d \<longrightarrow>
          CvPlusCalibrator_init format kfold_calibrators = Inr \<lparr> kfold_calibrators_dict = d \<rparr>)"
proof (cases kfold_calibrators)
  case None
  then show ?thesis by (simp add: CvPlusCalibrator_init_def)
next
  case (Some d)
  show ?thesis
  proof (cases "check_calibrators format d")
    case None
    with check_calibrators_iff [of format d] have "None \<notin> snd ` set d" by simp
    with None Some show ?thesis by (simp add: CvPlusCalibrator_init_def)
  next
    case e: (Some e)
    with check_calibrators_iff [of format d] have "None \<in> snd ` set d" by simp
    with e Some show ?thesis by (simp add: CvPlusCalibrator_init_def)
  qed
qed

theorem CvPlusCalibrator_init_fails_iff_witness:
  "isl (CvPlusCalibrator_init (\<lambda>k :: nat. [])
          (None :: (nat \<times> (real ndarray, real, unit, unit) BaseCalibrator option) list option))
   \<and> isl (CvPlusCalibrator_init (\<lambda>k :: nat. [])
          (Some [(0, Some (BaseCalibrator_init (MAD (\<lambda>cs. True))
                             (\<lambda>(p :: real ndarray) (qs :: real list). Inr ()) (None :: unit option))),
                 (1, None)]))
   \<and> CvPlusCalibrator_init (\<lambda>k :: nat. [])
          (Some [(0, Some (BaseCalibrator_init (MAD (\<lambda>cs. True))
                             (\<lambda>(p :: real ndarray) (qs :: real list). Inr ()) (None :: unit option)))])
       = Inr \<lparr> kfold_calibrators_dict =
                 [(0, Some (BaseCalibrator_init (MAD (\<lambda>cs. True))
                             (\<lambda>(p :: real ndarray) (qs :: real list). Inr ()) (None :: unit option)))] \<rparr>"
proof -
  let ?c = "BaseCalibrator_init (MAD (\<lambda>cs. True))
              (\<lambda>(p :: real ndarray) (qs :: real list). Inr ()) (None :: unit option)"
  have "isl (CvPlusCalibrator_init (\<lambda>k :: nat. [])
          (None :: (nat \<times> (real ndarray, real, unit, unit) BaseCalibrator option) list option))"
    using CvPlusCalibrator_init_fails_iff [of "\<lambda>k :: nat. []"
            "None :: (nat \<times> (real ndarray, real, unit, unit) BaseCalibrator option) list option"]
    by simp
  moreover have "isl (CvPlusCalibrator_init (\<lambda>k :: nat. []) (Some [(0, Some ?c), (1, None)]))"
    using CvPlusCalibrator_init_fails_iff [of "\<lambda>k :: nat. []" "Some [(0, Some ?c), (1, None)]"]
    by simp
  moreover have "CvPlusCalibrator_init (\<lambda>k :: nat. []) (Some [(0, Some ?c)])
                 = Inr \<lparr> kfold_calibrators_dict = [(0, Some ?c)] \<rparr>"
    using CvPlusCalibrator_init_fails_iff [of "\<lambda>k :: nat. []" "Some [(0, Some ?c)]"]
    by simp
  ultimately show ?thesis by blast
qed

lemma bind_eq_Inr: "bind r f = Inr y \<longleftrightarrow> (\<exists>x. r = Inr x \<and> f x = Inr y)"
  by (cases r) simp_all

lemma bind_InrE:
  assumes "bind r f = Inr y"
  obtains x where "r = Inr x" and "f x = Inr y"
  using assms by (auto simp: bind_eq_Inr)

lemma traverse_Inr:
  assumes "traverse f xs = Inr ys"
  shows "length ys = length xs \<and> (\<forall>i < length xs. f (xs ! i) = Inr (ys ! i))"
  using assms
proof (induction xs arbitrary: ys)
  case Nil
  then show ?case by simp
next
  case (Cons x xs)
  from Cons.prems obtain y ys' where y: "f x = Inr y" and ys': "traverse f xs = Inr ys'"
    and ys: "ys = y # ys'"
    by (auto simp: bind_eq_Inr)
  from Cons.IH [OF ys'] have "length ys' = length xs"
    and "\<forall>i < length xs. f (xs ! i) = Inr (ys' ! i)" by simp_all
  with y ys show ?case by (auto simp: nth_Cons split: nat.splits)
qed

lemma traverse_upt_Inr:
  assumes "traverse f [0..<n] = Inr ys"
  shows "length ys = n \<and> (\<forall>i < n. f i = Inr (ys ! i))"
  using traverse_Inr [OF assms] by simp

lemma traverse_map_Inr:
  assumes "\<forall>x \<in> set xs. f x = Inr (g x)"
  shows "traverse f xs = Inr (map g xs)"
  using assms by (induction xs) simp_all

lemma length_cumsum_from: "length (cumsum_from a xs) = length xs"
  by (induction xs arbitrary: a) simp_all

lemma length_cumsum [simp]: "length (cumsum xs) = length xs"
  by (simp add: cumsum_def length_cumsum_from)

lemma length_sort_neg [simp]: "length (sort_neg row) = length row"
  by (simp add: sort_neg_def)

lemma length_argsort_neg [simp]: "length (argsort_neg row) = length row"
  by (simp add: argsort_neg_def)

lemma RAPS_L_ge_1: "1 \<le> RAPS_L lambd k_reg tau cum"
  by (simp add: RAPS_L_def)

lemma RAPS_cut_cases: "RAPS_cut v u L = L - 1 \<or> RAPS_cut v u L = L"
  by (simp add: RAPS_cut_def)

lemma RAPS_SET_locals_Inr:
  assumes "RAPS_SET_locals lambd k_reg uniform Y_pred tau = Inr (L, pe, v, cuts, sets)"
  shows "\<exists>m rows. Y_pred = Array2 m rows
       \<and> length L = length rows \<and> length pe = length rows \<and> length v = length rows
       \<and> length cuts = length rows \<and> length sets = length rows
       \<and> (\<forall>i < length rows.
             L ! i = RAPS_L lambd k_reg tau (cumsum (sort_neg (rows ! i)))
           \<and> RAPS_proba_excess lambd k_reg (cumsum (sort_neg (rows ! i))) (sort_neg (rows ! i)) (L ! i)
               = Inr (pe ! i)
           \<and> RAPS_v tau (pe ! i) (sort_neg (rows ! i)) (L ! i) = Inr (v ! i)
           \<and> i < length (uniform (length rows))
           \<and> cuts ! i = RAPS_cut (v ! i) (uniform (length rows) ! i) (L ! i)
           \<and> sets ! i = RAPS_prediction_set (argsort_neg (rows ! i)) (cuts ! i))"
proof (cases Y_pred)
  case (Array0 x)
  with assms show ?thesis by (simp add: RAPS_SET_locals_def)
next
  case (Array1 xs)
  with assms show ?thesis by (simp add: RAPS_SET_locals_def)
next
  case (Array2 m rows)
  let ?n = "length rows"
  let ?L = "map (\<lambda>i. RAPS_L lambd k_reg tau (map cumsum (map sort_neg rows) ! i)) [0..<?n]"
  from assms Array2 have run:
    "bind (traverse (\<lambda>i. RAPS_proba_excess lambd k_reg (map cumsum (map sort_neg rows) ! i)
                           (map sort_neg rows ! i) (?L ! i)) [0..<?n]) (\<lambda>proba_excess.
     bind (traverse (\<lambda>i. RAPS_v tau (proba_excess ! i) (map sort_neg rows ! i) (?L ! i)) [0..<?n])
       (\<lambda>v.
     bind (traverse (\<lambda>i. bind (nth_err (uniform ?n) i)
                                (\<lambda>u_i. Inr (RAPS_cut (v ! i) u_i (?L ! i)))) [0..<?n])
       (\<lambda>c.
     Inr (?L, proba_excess, v, c,
          map (\<lambda>i. RAPS_prediction_set (map argsort_neg rows ! i) (c ! i)) [0..<?n]))))
     = Inr (L, pe, v, cuts, sets)"
    by (simp add: RAPS_SET_locals_def Let_def)
  from run obtain pe' where
      pe': "traverse (\<lambda>i. RAPS_proba_excess lambd k_reg (map cumsum (map sort_neg rows) ! i)
                           (map sort_neg rows ! i) (?L ! i)) [0..<?n] = Inr pe'"
    and run1: "bind (traverse (\<lambda>i. RAPS_v tau (pe' ! i) (map sort_neg rows ! i) (?L ! i)) [0..<?n])
       (\<lambda>v.
     bind (traverse (\<lambda>i. bind (nth_err (uniform ?n) i)
                                (\<lambda>u_i. Inr (RAPS_cut (v ! i) u_i (?L ! i)))) [0..<?n])
       (\<lambda>c.
     Inr (?L, pe', v, c,
          map (\<lambda>i. RAPS_prediction_set (map argsort_neg rows ! i) (c ! i)) [0..<?n])))
     = Inr (L, pe, v, cuts, sets)"
    by (rule bind_InrE)
  from run1 obtain v' where
      v': "traverse (\<lambda>i. RAPS_v tau (pe' ! i) (map sort_neg rows ! i) (?L ! i)) [0..<?n] = Inr v'"
    and run2: "bind (traverse (\<lambda>i. bind (nth_err (uniform ?n) i)
                                (\<lambda>u_i. Inr (RAPS_cut (v' ! i) u_i (?L ! i)))) [0..<?n])
       (\<lambda>c.
     Inr (?L, pe', v', c,
          map (\<lambda>i. RAPS_prediction_set (map argsort_neg rows ! i) (c ! i)) [0..<?n]))
     = Inr (L, pe, v, cuts, sets)"
    by (rule bind_InrE)
  from run2 obtain cuts' where
      cuts': "traverse (\<lambda>i. bind (nth_err (uniform ?n) i)
                                (\<lambda>u_i. Inr (RAPS_cut (v' ! i) u_i (?L ! i)))) [0..<?n] = Inr cuts'"
    and res: "Inr (?L, pe', v', cuts',
          map (\<lambda>i. RAPS_prediction_set (map argsort_neg rows ! i) (cuts' ! i)) [0..<?n])
     = (Inr (L, pe, v, cuts, sets) :: error + _)"
    by (rule bind_InrE)
  from res have eqs: "L = ?L" "pe = pe'" "v = v'" "cuts = cuts'"
    "sets = map (\<lambda>i. RAPS_prediction_set (map argsort_neg rows ! i) (cuts' ! i)) [0..<?n]"
    by auto
  note P = traverse_upt_Inr [OF pe'] and V = traverse_upt_Inr [OF v'] and C = traverse_upt_Inr [OF cuts']
  have "\<forall>i < ?n.
             L ! i = RAPS_L lambd k_reg tau (cumsum (sort_neg (rows ! i)))
           \<and> RAPS_proba_excess lambd k_reg (cumsum (sort_neg (rows ! i))) (sort_neg (rows ! i)) (L ! i)
               = Inr (pe ! i)
           \<and> RAPS_v tau (pe ! i) (sort_neg (rows ! i)) (L ! i) = Inr (v ! i)
           \<and> i < length (uniform ?n)
           \<and> cuts ! i = RAPS_cut (v ! i) (uniform ?n ! i) (L ! i)
           \<and> sets ! i = RAPS_prediction_set (argsort_neg (rows ! i)) (cuts ! i)"
  proof (intro allI impI)
    fix i assume i: "i < ?n"
    from P i have p: "RAPS_proba_excess lambd k_reg (map cumsum (map sort_neg rows) ! i)
                           (map sort_neg rows ! i) (?L ! i) = Inr (pe' ! i)" by blast
    from V i have vv: "RAPS_v tau (pe' ! i) (map sort_neg rows ! i) (?L ! i) = Inr (v' ! i)"
      by blast
    from C i have "bind (nth_err (uniform ?n) i)
                     (\<lambda>u_i. Inr (RAPS_cut (v' ! i) u_i (?L ! i))) = Inr (cuts' ! i)" by blast
    then have c: "i < length (uniform ?n)"
        "cuts' ! i = RAPS_cut (v' ! i) (uniform ?n ! i) (?L ! i)"
      by (auto simp: bind_eq_Inr nth_err_def split: if_splits)
    show "L ! i = RAPS_L lambd k_reg tau (cumsum (sort_neg (rows ! i)))
           \<and> RAPS_proba_excess lambd k_reg (cumsum (sort_neg (rows ! i))) (sort_neg (rows ! i)) (L ! i)
               = Inr (pe ! i)
           \<and> RAPS_v tau (pe ! i) (sort_neg (rows ! i)) (L ! i) = Inr (v ! i)
           \<and> i < length (uniform ?n)
           \<and> cuts ! i = RAPS_cut (v ! i) (uniform ?n ! i) (L ! i)
           \<and> sets ! i = RAPS_prediction_set (argsort_neg (rows ! i)) (cuts ! i)"
      using p vv c i unfolding eqs by simp
  qed
  moreover have "length L = ?n" "length pe = ?n" "length v = ?n" "length cuts = ?n" "length sets = ?n"
    using P V C unfolding eqs by simp_all
  ultimately show ?thesis using Array2 by blast
qed

lemma py_index_Inr_bound:
  assumes "py_index xs j = Inr x" and "0 \<le> j"
  shows "nat j < length xs"
  using assms by (auto simp: py_index_def Let_def split: if_splits)

lemma RAPS_proba_excess_Inr_bound:
  assumes "RAPS_proba_excess lambd k_reg cum proba L = Inr pe" and "1 \<le> L"
  shows "nat L \<le> length cum"
proof -
  from assms(1) obtain c where "py_index cum (L - 1) = Inr c"
    unfolding RAPS_proba_excess_def by (rule bind_InrE)
  with assms(2) have "nat (L - 1) < length cum"
    by (intro py_index_Inr_bound) simp_all
  with assms(2) show ?thesis by linarith
qed

text \<open>
  C10. In \<open>_RAPS_SET\<close> the cut rank \<open>L[i]\<close>, one plus a count, is at least 1 for every
  input. Hence the guard \<open>L[i] - 1 >= 0\<close> always holds and \<open>v[i]\<close> is the quotient,
  never the \<open>np.inf\<close> of the other branch; \<open>cut_i\<close> is never negative, so the
  prediction set is always the slice of the ranking and never the empty list of the
  branch \<open>cut_i < 0\<close>; and whenever the function returns, a prediction set is empty
  exactly when its \<open>cut_i\<close> is 0, which is exactly when \<open>v[i] <= u[i]\<close> and
  \<open>L[i] = 1\<close>.
\<close>

theorem RAPS_SET_cut_rank_positive:
  "1 \<le> RAPS_L lambd k_reg tau cum
   \<and> 0 \<le> RAPS_L lambd k_reg tau cum - 1
   \<and> RAPS_v tau pe proba (RAPS_L lambd k_reg tau cum)
       = bind (py_index proba (RAPS_L lambd k_reg tau cum - 1))
           (\<lambda>p. Inr (np_divide (tau - pe) p))
   \<and> 0 \<le> RAPS_cut v u (RAPS_L lambd k_reg tau cum)
   \<and> RAPS_prediction_set ranking (RAPS_cut v u (RAPS_L lambd k_reg tau cum))
       = take (nat (RAPS_cut v u (RAPS_L lambd k_reg tau cum))) ranking
   \<and> (\<forall>L pes vs cuts sets.
         RAPS_SET_locals lambd k_reg uniform Y_pred tau = Inr (L, pes, vs, cuts, sets) \<longrightarrow>
         (\<forall>i < length sets.
              1 \<le> L ! i \<and> 0 \<le> cuts ! i
            \<and> (cuts ! i = 0 \<longleftrightarrow> np_le (vs ! i) (uniform (length sets) ! i) \<and> L ! i = 1)
            \<and> (sets ! i = [] \<longleftrightarrow> cuts ! i = 0)))"
proof (intro conjI allI impI)
  let ?L = "RAPS_L lambd k_reg tau cum"
  show L1: "1 \<le> ?L" by (rule RAPS_L_ge_1)
  then show L0: "0 \<le> ?L - 1" by simp
  then show "RAPS_v tau pe proba ?L
             = bind (py_index proba (?L - 1)) (\<lambda>p. Inr (np_divide (tau - pe) p))"
    by (simp add: RAPS_v_def)
  show c0: "0 \<le> RAPS_cut v u ?L"
    using L1 RAPS_cut_cases [of v u ?L] by auto
  then show "RAPS_prediction_set ranking (RAPS_cut v u ?L) = take (nat (RAPS_cut v u ?L)) ranking"
    by (simp add: RAPS_prediction_set_def)
next
  fix L pes vs cuts sets i
  assume run: "RAPS_SET_locals lambd k_reg uniform Y_pred tau = Inr (L, pes, vs, cuts, sets)"
     and i: "i < length sets"
  from RAPS_SET_locals_Inr [OF run] obtain m rows where
      len: "length sets = length rows"
    and el: "\<forall>i < length rows.
             L ! i = RAPS_L lambd k_reg tau (cumsum (sort_neg (rows ! i)))
           \<and> RAPS_proba_excess lambd k_reg (cumsum (sort_neg (rows ! i))) (sort_neg (rows ! i)) (L ! i)
               = Inr (pes ! i)
           \<and> RAPS_v tau (pes ! i) (sort_neg (rows ! i)) (L ! i) = Inr (vs ! i)
           \<and> i < length (uniform (length rows))
           \<and> cuts ! i = RAPS_cut (vs ! i) (uniform (length rows) ! i) (L ! i)
           \<and> sets ! i = RAPS_prediction_set (argsort_neg (rows ! i)) (cuts ! i)"
    by blast
  from i len have "i < length rows" by simp
  with el have eli:
           "L ! i = RAPS_L lambd k_reg tau (cumsum (sort_neg (rows ! i)))
           \<and> RAPS_proba_excess lambd k_reg (cumsum (sort_neg (rows ! i))) (sort_neg (rows ! i)) (L ! i)
               = Inr (pes ! i)
           \<and> RAPS_v tau (pes ! i) (sort_neg (rows ! i)) (L ! i) = Inr (vs ! i)
           \<and> i < length (uniform (length rows))
           \<and> cuts ! i = RAPS_cut (vs ! i) (uniform (length rows) ! i) (L ! i)
           \<and> sets ! i = RAPS_prediction_set (argsort_neg (rows ! i)) (cuts ! i)"
    by blast
  from eli have
      Li: "L ! i = RAPS_L lambd k_reg tau (cumsum (sort_neg (rows ! i)))"
    and pe: "RAPS_proba_excess lambd k_reg (cumsum (sort_neg (rows ! i))) (sort_neg (rows ! i)) (L ! i)
               = Inr (pes ! i)"
    and ci: "cuts ! i = RAPS_cut (vs ! i) (uniform (length sets) ! i) (L ! i)"
    and si: "sets ! i = RAPS_prediction_set (argsort_neg (rows ! i)) (cuts ! i)"
    unfolding len by blast+
  have L1: "1 \<le> L ! i" unfolding Li by (rule RAPS_L_ge_1)
  have c0: "0 \<le> cuts ! i"
    using L1 RAPS_cut_cases [of "vs ! i" "uniform (length sets) ! i" "L ! i"] ci by auto
  have cz: "cuts ! i = 0 \<longleftrightarrow> np_le (vs ! i) (uniform (length sets) ! i) \<and> L ! i = 1"
    using L1 ci by (auto simp: RAPS_cut_def)
  from RAPS_proba_excess_Inr_bound [OF pe L1] have "nat (L ! i) \<le> length (rows ! i)" by simp
  with L1 have ne: "argsort_neg (rows ! i) \<noteq> []"
    by (metis length_argsort_neg le_zero_eq list.size(3) nat_0_iff not_one_le_zero order.trans zero_le_one)
  have "sets ! i = take (nat (cuts ! i)) (argsort_neg (rows ! i))"
    using si c0 by (simp add: RAPS_prediction_set_def)
  then have sz: "sets ! i = [] \<longleftrightarrow> cuts ! i = 0"
    using ne c0 by (simp add: take_eq_Nil)
  show "1 \<le> L ! i" by (rule L1)
  show "0 \<le> cuts ! i" by (rule c0)
  show "cuts ! i = 0 \<longleftrightarrow> np_le (vs ! i) (uniform (length sets) ! i) \<and> L ! i = 1"
    by (rule cz)
  show "sets ! i = [] \<longleftrightarrow> cuts ! i = 0" by (rule sz)
qed

theorem RAPS_SET_cut_rank_positive_witness:
  "RAPS_SET_locals 0 1 (\<lambda>n. replicate n (1/2)) (Array2 2 [[1/2, 1/2], [1/2, 1/2]]) (1/10)
     = Inr ([1, 1], [0, 0], [Finite (1/5), Finite (1/5)], [0, 0], [[], []])
   \<and> (\<exists>L pes vs cuts sets.
        RAPS_SET_locals 0 1 (\<lambda>n. replicate n (1/2)) (Array2 2 [[1/2, 1/2], [1/2, 1/2]]) (1/10)
          = Inr (L, pes, vs, cuts, sets)
        \<and> 1 \<le> L ! 0 \<and> 0 \<le> cuts ! 0 \<and> sets ! 0 = [] \<and> cuts ! 0 = 0)"
proof -
  have run: "RAPS_SET_locals 0 1 (\<lambda>n. replicate n (1/2)) (Array2 2 [[1/2, 1/2], [1/2, 1/2]]) (1/10)
     = Inr ([1, 1], [0, 0], [Finite (1/5), Finite (1/5)], [0, 0], [[], []])"
    by code_simp
  note th = RAPS_SET_cut_rank_positive
              [where lambd = 0 and k_reg = 1 and uniform = "\<lambda>n. replicate n (1/2)"
                 and Y_pred = "Array2 2 [[1/2, 1/2], [1/2, 1/2]]" and tau = "1/10",
               THEN conjunct2, THEN conjunct2, THEN conjunct2, THEN conjunct2, THEN conjunct2,
               rule_format, OF run, of 0]
  have "1 \<le> [1, 1::int] ! 0 \<and> 0 \<le> [0, 0::int] ! 0
        \<and> [[], []::nat list] ! 0 = [] \<and> [0, 0::int] ! 0 = 0"
    using th by simp
  with run show ?thesis by blast
qed

text \<open>
  C3. The cutoff fraction \<open>v\<close> of \<open>_RAPS_SET\<close> leaves \<open>[0, 1]\<close>: for one example with
  probabilities \<open>(0.5, 0.5)\<close>, \<open>tau = 0.7\<close>, \<open>lambd = 0\<close> and \<open>k_reg = 1\<close>, the cut rank
  is \<open>L = 2\<close> (so \<open>L - 1 \<ge> 0\<close>), \<open>proba_excess = -0.5\<close> and
  \<open>v = (0.7 + 0.5) / 0.5 = 2.4\<close>.
\<close>

theorem RAPS_SET_v_exceeds_one:
  "RAPS_SET_locals 0 1 (\<lambda>n. replicate n (1/2)) (Array2 2 [[1/2, 1/2]]) (7/10)
   = Inr ([2], [- (1/2)], [Finite (12/5)], [2], [[0, 1]])"
  by code_simp

lemma map_insort_key: "map f (insort_key f x xs) = insort (f x) (map f xs)"
  by (induction xs) auto

lemma map_sort_key: "map f (sort_key f xs) = sort (map f xs)"
  by (induction xs) (simp_all add: map_insort_key)

lemma sort_neg_argsort_neg: "sort_neg row = map (\<lambda>j. row ! j) (argsort_neg row)"
proof -
  have "map (\<lambda>j. - (row ! j)) [0..<length row] = map uminus row"
    by (rule nth_equalityI) simp_all
  then have "sort (map uminus row)
             = map (\<lambda>j. - (row ! j)) (sort_key (\<lambda>j. - (row ! j)) [0..<length row])"
    by (simp add: map_sort_key)
  then show ?thesis by (simp add: sort_neg_def argsort_neg_def o_def)
qed

lemma set_argsort_neg: "set (argsort_neg row) = {0..<length row}"
  by (simp add: argsort_neg_def)

lemma distinct_argsort_neg: "distinct (argsort_neg row)"
  by (simp add: argsort_neg_def)

lemma sorted_wrt_sort_neg: "sorted_wrt (\<lambda>a b. b \<le> a) (sort_neg row)"
proof -
  have "sorted (sort (map uminus row))" by simp
  then show ?thesis
    unfolding sort_neg_def sorted_wrt_map by (rule sorted_wrt_mono_rel [rotated]) simp
qed

lemma cumsum_from_nth:
  "k < length xs \<Longrightarrow> cumsum_from a xs ! k = a + sum_list (take (Suc k) xs)"
proof (induction xs arbitrary: a k)
  case Nil
  then show ?case by simp
next
  case (Cons x xs)
  then show ?case by (cases k) simp_all
qed

lemma cumsum_nth: "k < length xs \<Longrightarrow> cumsum xs ! k = sum_list (take (Suc k) xs)"
  by (simp add: cumsum_def cumsum_from_nth)

lemma where_first_mem:
  assumes "y \<in> int ` set cs"
  shows "\<exists>j. where_first cs y = Inr j \<and> j < length cs \<and> int (cs ! j) = y"
  using assms
proof (induction cs)
  case Nil
  then show ?case by simp
next
  case (Cons c cs)
  show ?case
  proof (cases "int c = y")
    case True
    then show ?thesis by simp
  next
    case False
    with Cons.prems have "y \<in> int ` set cs" by auto
    from Cons.IH [OF this] obtain j where "where_first cs y = Inr j" "j < length cs"
      "int (cs ! j) = y" by blast
    with False show ?thesis by simp
  qed
qed

lemma nth_err_map: "i < length xs \<Longrightarrow> nth_err (map g xs) i = Inr (g (xs ! i))"
  by (simp add: nth_err_def)

lemma nth_err_Inr: "i < length xs \<Longrightarrow> nth_err xs i = Inr (xs ! i)"
  by (simp add: nth_err_def)

lemma RAPS_rank_exists:
  assumes "length row = C" and "0 \<le> y" and "y < int C"
  shows "\<exists>j. where_first (argsort_neg row) y = Inr j \<and> j < C
           \<and> int (argsort_neg row ! j) = y
           \<and> sort_neg row ! j = row ! nat y"
proof -
  from assms have "nat y \<in> set (argsort_neg row)"
    by (simp add: set_argsort_neg)
  then have "int (nat y) \<in> int ` set (argsort_neg row)" by (rule imageI)
  with assms have "y \<in> int ` set (argsort_neg row)" by simp
  from where_first_mem [OF this] obtain j where
      j: "where_first (argsort_neg row) y = Inr j" "j < length (argsort_neg row)"
         "int (argsort_neg row ! j) = y"
    by blast
  from j(3) have "argsort_neg row ! j = nat y" by simp
  with j(2) have "sort_neg row ! j = row ! nat y"
    by (simp add: sort_neg_argsort_neg)
  with j assms show ?thesis by auto
qed



end
